theory Spec2Isabelle
  imports Main
begin

section \<open>Identifier extraction (\<open>extract_video_id\<close>)\<close>

text \<open>
  The source calls
  \<^verbatim>\<open>re.search(r"(?:v=|\/)([0-9A-Za-z_-]{11}).*", url)\<close>
  and returns group 1 of the match, or \<open>None\<close> when there is no match. The argument
  is a string, so the \<open>except\<close> branch of the source (a non-string argument) has no
  counterpart here.

  \<open>re.search\<close> scans the start positions from left to right and returns the first
  position at which the pattern matches. At one position the pattern reads either
  \<open>v=\<close> or \<open>/\<close>, then exactly eleven characters of the class, then \<open>.*\<close>, which
  matches any (possibly empty) rest of the line and so never fails.
\<close>

definition id_chars :: string where
  "id_chars = ''0123456789ABCDEFGHIJKLMNOPQRSTUVWXYZabcdefghijklmnopqrstuvwxyz_-''"

definition is_id_char :: "char \<Rightarrow> bool" where
  "is_id_char c = (c \<in> set id_chars)"

text \<open>The capture group \<open>([0-9A-Za-z_-]{11})\<close> read at the start of a string.\<close>

definition match_group :: "string \<Rightarrow> string option" where
  "match_group s =
     (if 11 \<le> length s \<and> list_all is_id_char (take 11 s) then Some (take 11 s) else None)"

text \<open>The whole pattern anchored at the start of a string: the alternative \<open>v=\<close> is
  tried first, then \<open>/\<close>.\<close>

definition match_at :: "string \<Rightarrow> string option" where
  "match_at s =
     (case (if take 2 s = ''v='' then match_group (drop 2 s) else None) of
        Some g \<Rightarrow> Some g
      | None \<Rightarrow> (if take 1 s = ''/'' then match_group (drop 1 s) else None))"

fun re_search :: "string \<Rightarrow> string option" where
  "re_search [] = match_at []"
| "re_search (c # cs) =
     (case match_at (c # cs) of Some g \<Rightarrow> Some g | None \<Rightarrow> re_search cs)"

definition extract_video_id :: "string \<Rightarrow> string option" where
  "extract_video_id url = re_search url"

text \<open>No start position below \<open>n\<close> of \<open>url\<close> carries a match.\<close>

definition no_match_before :: "nat \<Rightarrow> string \<Rightarrow> bool" where
  "no_match_before n url = list_all (\<lambda>k. match_at (drop k url) = None) [0..<n]"

section \<open>The comment fetcher\<close>

text \<open>
  The record that \<open>_run\<close> builds from one item of a response: the dictionary with the
  keys \<open>author\<close>, \<open>text\<close> and \<open>published_at\<close> (the field of \<open>text\<close> is called
  \<open>comment_text\<close> here).
\<close>

record comment =
  author :: string
  comment_text :: string
  published_at :: string

text \<open>
  The log is the list of the records passed to \<open>logging.info\<close> and \<open>logging.error\<close>,
  each with its level and its message.
\<close>

datatype level = INFO | ERROR

text \<open>
  The two handlers of \<open>_run\<close> tell a \<open>requests.exceptions.RequestException\<close> from any
  other \<open>Exception\<close>; an exception carries the message that the handler logs.
\<close>

datatype exn = RequestException string | Exception string

text \<open>
  What the lines from \<open>requests.get\<close> to the end of the loop over \<open>data["items"]\<close> make
  of one request. Either an exception is raised (by \<open>requests.get\<close>,
  \<open>raise_for_status\<close>, \<open>response.json\<close>, or by a key missing from the body; in each
  case before anything is flushed for this page), or the body holds the items, of which
  the loop keeps the author, the text and the date, and possibly a \<open>nextPageToken\<close>.
\<close>

datatype response = Raises exn | Data "comment list" "string option"

text \<open>The query parameters of a request.\<close>

record params =
  part :: string
  videoId :: string
  pageToken :: "string option"
  maxResults :: int
  textFormat :: string
  key :: string

text \<open>
  \<open>save_comments\<close> opens and writes the Markdown file, then the CSV file, then the JSON
  file, inside one \<open>try\<close>. A failing write is modelled at the file it stops at: the
  files before it have been written in full, the files after it are not touched. Of the
  Markdown or CSV file it stops at, either \<open>open\<close> raises and the file is left as it
  was, or the file has been opened and a first part of the output has reached it before
  the exception: the first \<open>n\<close> characters of the Markdown text, or the first \<open>n\<close> rows
  of the CSV output (rows are the unit in which CSV files are kept here). A failing JSON
  write leaves the JSON file as it was. The fault carries the message of the exception.
\<close>

datatype progress = AtOpen | Written nat

datatype fault =
  MarkdownFails progress string | CsvFails progress string | JsonFails string

text \<open>A CSV file is kept as the list of the rows passed to \<open>writer.writerow\<close>; the index
  cell is an integer, the other cells are strings.\<close>

datatype cell = IntCell int | StrCell string

type_synonym row = "cell list"

text \<open>
  Everything outside the program that a run reads or changes:
  \<^item> \<open>api_key_env\<close>: the value of \<open>os.getenv("YOUTUBE_API_KEY")\<close>;
  \<^item> \<open>responses\<close>: the outcome of the request number \<open>n\<close> (from 0), whatever it asks;
    the client is sequential and deterministic, so a server is the sequence of its
    answers, and a server that always sends a continuation token keeps the loop running
    for ever;
  \<^item> \<open>write_faults\<close>: whether the call number \<open>n\<close> of \<open>save_comments\<close> meets a failing
    write, and at which file;
  \<^item> \<open>today\<close>: \<open>datetime.now().strftime("%Y%m%d")\<close>, taken as constant during a run;
  \<^item> the three kinds of output files by name: a Markdown file is its text, a CSV file its
    rows, a JSON file the list of the objects dumped into it, each given by its list of
    comments (the names of the three kinds end differently, so no file is in two maps);
  \<^item> \<open>logged\<close>: the log;
  \<^item> \<open>requests\<close> and \<open>save_calls\<close>: the trace of the requests sent and of the calls of
    \<open>save_comments\<close> (batch and start index), kept to count and inspect them.
\<close>

record world =
  api_key_env :: "string option"
  responses :: "nat \<Rightarrow> response"
  write_faults :: "nat \<Rightarrow> fault option"
  today :: string
  markdown_files :: "string \<rightharpoonup> string"
  csv_files :: "string \<rightharpoonup> row list"
  json_files :: "string \<rightharpoonup> comment list list"
  logged :: "(level \<times> string) list"
  requests :: "params list"
  save_calls :: "(comment list \<times> int) list"

text \<open>\<open>str(i)\<close> for an integer \<open>i\<close>, as the f-strings of the source print it.\<close>

definition digit_char :: "nat \<Rightarrow> char" where
  "digit_char d = ''0123456789'' ! d"

fun digits :: "nat \<Rightarrow> string" where
  "digits n = (if n < 10 then [digit_char n] else digits (n div 10) @ [digit_char (n mod 10)])"

definition str_int :: "int \<Rightarrow> string" where
  "str_int i = (if i < 0 then CHR ''-'' # digits (nat (- i)) else digits (nat i))"

text \<open>\<open>enumerate(xs, start=start)\<close>.\<close>

fun enumerate_from :: "int \<Rightarrow> 'a list \<Rightarrow> (int \<times> 'a) list" where
  "enumerate_from start [] = []"
| "enumerate_from start (x # xs) = (start, x) # enumerate_from (start + 1) xs"

definition log_info :: "world \<Rightarrow> string \<Rightarrow> world" where
  "log_info w msg = w\<lparr>logged := logged w @ [(INFO, msg)]\<rparr>"

definition log_error :: "world \<Rightarrow> string \<Rightarrow> world" where
  "log_error w msg = w\<lparr>logged := logged w @ [(ERROR, msg)]\<rparr>"

text \<open>Opening a file in mode \<open>"a"\<close> creates it when it does not exist, and writes go to
  its end.\<close>

definition file_content :: "(string \<rightharpoonup> 'a list) \<Rightarrow> string \<Rightarrow> 'a list" where
  "file_content fs name = (case fs name of None \<Rightarrow> [] | Some c \<Rightarrow> c)"

definition append_file ::
  "(string \<rightharpoonup> 'a list) \<Rightarrow> string \<Rightarrow> 'a list \<Rightarrow> (string \<rightharpoonup> 'a list)" where
  "append_file fs name xs = fs(name \<mapsto> file_content fs name @ xs)"

text \<open>The line that the Markdown loop writes for the comment \<open>c\<close> numbered \<open>i\<close>, the header
  and the rows of the CSV file, and the names of the three files.\<close>

definition newline :: char where
  "newline = CHR 0x0A"

definition md_line :: "int \<Rightarrow> comment \<Rightarrow> string" where
  "md_line i c = str_int i @ ''. **'' @ author c @ ''**: '' @ comment_text c
     @ '' (Published at: '' @ published_at c @ '')'' @ [newline]"

definition md_text :: "int \<Rightarrow> comment list \<Rightarrow> string" where
  "md_text start comments = concat (map (\<lambda>(i, c). md_line i c) (enumerate_from start comments))"

definition csv_header :: row where
  "csv_header = [StrCell ''Index'', StrCell ''Author'', StrCell ''Comment'', StrCell ''Published At'']"

definition csv_row :: "int \<Rightarrow> comment \<Rightarrow> row" where
  "csv_row i c = [IntCell i, StrCell (author c), StrCell (comment_text c), StrCell (published_at c)]"

definition csv_rows :: "int \<Rightarrow> comment list \<Rightarrow> row list" where
  "csv_rows start comments = map (\<lambda>(i, c). csv_row i c) (enumerate_from start comments)"

definition markdown_file_name :: "string \<Rightarrow> string \<Rightarrow> string" where
  "markdown_file_name video_id date_str = ''comments_'' @ video_id @ ''_'' @ date_str @ ''.md''"

definition csv_file_name :: "string \<Rightarrow> string \<Rightarrow> string" where
  "csv_file_name video_id date_str = ''comments_'' @ video_id @ ''_'' @ date_str @ ''.csv''"

definition json_file_name :: "string \<Rightarrow> string \<Rightarrow> string" where
  "json_file_name video_id date_str = ''comments_'' @ video_id @ ''_'' @ date_str @ ''.json''"

definition write_markdown :: "world \<Rightarrow> string \<Rightarrow> comment list \<Rightarrow> int \<Rightarrow> world" where
  "write_markdown w markdown_file comments start_index =
     w\<lparr>markdown_files := append_file (markdown_files w) markdown_file
          (md_text (start_index + 1) comments)\<rparr>"

definition write_csv :: "world \<Rightarrow> string \<Rightarrow> comment list \<Rightarrow> int \<Rightarrow> world" where
  "write_csv w csv_file comments start_index =
     w\<lparr>csv_files := append_file (csv_files w) csv_file
          ((if start_index = 0 then [csv_header] else []) @ csv_rows (start_index + 1) comments)\<rparr>"

text \<open>A write that stops with an exception: nothing when \<open>open\<close> raises, and otherwise the
  part of the output that has reached the file.\<close>

definition write_markdown_part ::
  "world \<Rightarrow> string \<Rightarrow> comment list \<Rightarrow> int \<Rightarrow> progress \<Rightarrow> world" where
  "write_markdown_part w markdown_file comments start_index p =
     (case p of
        AtOpen \<Rightarrow> w
      | Written n \<Rightarrow>
          w\<lparr>markdown_files := append_file (markdown_files w) markdown_file
               (take n (md_text (start_index + 1) comments))\<rparr>)"

definition write_csv_part ::
  "world \<Rightarrow> string \<Rightarrow> comment list \<Rightarrow> int \<Rightarrow> progress \<Rightarrow> world" where
  "write_csv_part w csv_file comments start_index p =
     (case p of
        AtOpen \<Rightarrow> w
      | Written n \<Rightarrow>
          w\<lparr>csv_files := append_file (csv_files w) csv_file
               (take n ((if start_index = 0 then [csv_header] else [])
                        @ csv_rows (start_index + 1) comments))\<rparr>)"

definition write_json :: "world \<Rightarrow> string \<Rightarrow> comment list \<Rightarrow> world" where
  "write_json w json_file comments =
     w\<lparr>json_files := append_file (json_files w) json_file [comments]\<rparr>"

text \<open>
  \<open>save_comments(comments, start_index, video_id)\<close>: the new world and the returned
  index. The \<open>except\<close> branch logs the exception and returns \<open>start_index\<close>.
\<close>

definition save_comments :: "world \<Rightarrow> comment list \<Rightarrow> int \<Rightarrow> string \<Rightarrow> world \<times> int" where
  "save_comments w comments start_index video_id =
     (let w0 = w\<lparr>save_calls := save_calls w @ [(comments, start_index)]\<rparr>;
          date_str = today w;
          markdown_file = markdown_file_name video_id date_str;
          csv_file = csv_file_name video_id date_str;
          json_file = json_file_name video_id date_str
      in case write_faults w (length (save_calls w)) of
           Some (MarkdownFails p e) \<Rightarrow>
             (log_error (write_markdown_part w0 markdown_file comments start_index p)
                (''Comments could not be saved: '' @ e), start_index)
         | Some (CsvFails p e) \<Rightarrow>
             (log_error (write_csv_part (write_markdown w0 markdown_file comments start_index)
                           csv_file comments start_index p)
                (''Comments could not be saved: '' @ e), start_index)
         | Some (JsonFails e) \<Rightarrow>
             (log_error (write_csv (write_markdown w0 markdown_file comments start_index)
                           csv_file comments start_index)
                (''Comments could not be saved: '' @ e), start_index)
         | None \<Rightarrow>
             (write_json (write_csv (write_markdown w0 markdown_file comments start_index)
                            csv_file comments start_index) json_file comments,
              start_index + int (length comments)))"

text \<open>The number of lines that \<open>readlines\<close> returns for a text (a line ends at \<open>\n\<close>,
  \<open>\r\<close> or \<open>\r\n\<close>; a last line need not end).\<close>

fun py_lines :: "string \<Rightarrow> nat" where
  "py_lines [] = 0"
| "py_lines [c] = 1"
| "py_lines (c # d # r) =
     (if c = CHR 0x0D \<and> d = CHR 0x0A then Suc (py_lines r)
      else if c = CHR 0x0D \<or> c = CHR 0x0A then Suc (py_lines (d # r))
      else py_lines (d # r))"

text \<open>
  \<open>get_current_comment_count(self)\<close> builds the file name from the names \<open>video_id\<close>
  and \<open>date_str\<close>. A name read in a method is looked up among the method's parameters
  and locals (here only \<open>self\<close>), then among the names bound at module level (the imports,
  the class and the two functions), then among the builtins, which hold neither name; a
  name bound nowhere raises \<open>NameError\<close>, which the method's \<open>except Exception\<close> catches.
  The scope gives each visible name a printed form, which no result depends on.
\<close>

definition module_globals :: "string list" where
  "module_globals = [''os'', ''requests'', ''logging'', ''load_dotenv'', ''re'', ''csv'', ''json'',
     ''datetime'', ''YouTubeCommentsTool'', ''extract_video_id'', ''run'']"

definition get_current_comment_count_scope :: "string \<rightharpoonup> string" where
  "get_current_comment_count_scope =
     map_of (map (\<lambda>x. (x, ''<'' @ x @ ''>'')) (''self'' # module_globals))"

definition load_name :: "(string \<rightharpoonup> string) \<Rightarrow> string \<Rightarrow> exn + string" where
  "load_name scope x =
     (case scope x of
        Some v \<Rightarrow> Inr v
      | None \<Rightarrow> Inl (Exception (''name '' @ [CHR 0x27] @ x @ [CHR 0x27] @ '' is not defined'')))"

fun exn_message :: "exn \<Rightarrow> string" where
  "exn_message (RequestException m) = m"
| "exn_message (Exception m) = m"

definition get_current_comment_count :: "world \<Rightarrow> world \<times> int" where
  "get_current_comment_count w =
     (case load_name get_current_comment_count_scope ''video_id'' of
        Inl e \<Rightarrow>
          (log_error w (''Current comment count could not be retrieved: '' @ exn_message e), 0)
      | Inr video_id \<Rightarrow>
          (case load_name get_current_comment_count_scope ''date_str'' of
             Inl e \<Rightarrow>
               (log_error w (''Current comment count could not be retrieved: '' @ exn_message e), 0)
           | Inr date_str \<Rightarrow>
               (let markdown_file = markdown_file_name video_id date_str
                in if markdown_files w markdown_file \<noteq> None
                   then (w, int (py_lines (file_content (markdown_files w) markdown_file)))
                   else (w, 0))))"

text \<open>The fetch loop of \<open>_run\<close>. \<open>send_request\<close> records the request in the trace;
  \<open>falsy\<close> is the test \<open>not next_page_token\<close> (\<open>None\<close> or the empty string);
  \<open>process_page\<close> is the body of the loop after the response has been read: append the
  items of the page, then flush and reset the batch when it holds at least 100 records.\<close>

definition request_params :: "string \<Rightarrow> string \<Rightarrow> string option \<Rightarrow> params" where
  "request_params video_id api_key next_page_token =
     \<lparr>part = ''snippet'', videoId = video_id, pageToken = next_page_token, maxResults = 100,
      textFormat = ''plainText'', key = api_key\<rparr>"

definition send_request :: "world \<Rightarrow> params \<Rightarrow> world" where
  "send_request w p = w\<lparr>requests := requests w @ [p]\<rparr>"

definition falsy :: "string option \<Rightarrow> bool" where
  "falsy tok = (tok = None \<or> tok = Some [])"

definition process_page ::
  "string \<Rightarrow> world \<Rightarrow> comment list \<Rightarrow> int \<Rightarrow> comment list \<Rightarrow> world \<times> comment list \<times> int" where
  "process_page video_id w comments total_comments items =
     (let comments1 = comments @ items
      in if 100 \<le> length comments1
         then (case save_comments w comments1 total_comments video_id of
                 (w', total') \<Rightarrow> (w', [], total'))
         else (w, comments1, total_comments))"

text \<open>
  The \<open>while True\<close> loop, with the state of its variables \<open>comments\<close>,
  \<open>next_page_token\<close> and \<open>total_comments\<close>. It returns the world and either the
  exception that left the loop or the values of \<open>comments\<close> and \<open>total_comments\<close> at
  the \<open>break\<close>; it has no value (\<open>None\<close>) when the loop runs for ever.
\<close>

partial_function (option) fetch_loop ::
  "string \<Rightarrow> string \<Rightarrow> world \<Rightarrow> comment list \<Rightarrow> string option \<Rightarrow> int
     \<Rightarrow> (world \<times> (exn + comment list \<times> int)) option" where
  "fetch_loop video_id api_key w comments next_page_token total_comments =
     (let w1 = send_request w (request_params video_id api_key next_page_token)
      in case responses w (length (requests w)) of
           Raises e \<Rightarrow> Some (w1, Inl e)
         | Data items tok \<Rightarrow>
             (case process_page video_id w1 comments total_comments items of
                (w2, comments2, total2) \<Rightarrow>
                  if falsy tok then Some (w2, Inr (comments2, total2))
                  else fetch_loop video_id api_key w2 comments2 tok total2))"

declare fetch_loop.simps [code]

text \<open>
  \<open>YouTubeCommentsTool._run(video_id)\<close>: the new world and the returned list. After the
  loop the pending batch is flushed, with the result of that flush dropped, the total
  before that flush is logged, and the pending batch is returned. Each handler logs the
  exception and returns the empty list.
\<close>

definition YouTubeCommentsTool_run :: "world \<Rightarrow> string \<Rightarrow> (world \<times> comment list) option" where
  "YouTubeCommentsTool_run w video_id =
     (case api_key_env w of
        None \<Rightarrow> Some (log_error w ''YOUTUBE_API_KEY environment variable not set.'', [])
      | Some api_key \<Rightarrow>
          if api_key = []
          then Some (log_error w ''YOUTUBE_API_KEY environment variable not set.'', [])
          else
            (case get_current_comment_count (log_info w (''Using API Key: '' @ api_key)) of
               (w2, total_comments) \<Rightarrow>
                 (case fetch_loop video_id api_key w2 [] None total_comments of
                    None \<Rightarrow> None
                  | Some (w3, Inl (RequestException e)) \<Rightarrow>
                      Some (log_error w3 (''An HTTP error occurred: '' @ e), [])
                  | Some (w3, Inl (Exception e)) \<Rightarrow>
                      Some (log_error w3 (''An unexpected error occurred: '' @ e), [])
                  | Some (w3, Inr (comments, total_comments1)) \<Rightarrow>
                      (case save_comments w3 comments total_comments1 video_id of
                         (w4, _) \<Rightarrow>
                           Some (log_info w4
                                   (''Total '' @ str_int total_comments1 @ '' comments fetched.''),
                                 comments)))))"

section \<open>Scripted servers and the batches of a run\<close>

text \<open>A page of the API: its comment records and its continuation token.\<close>

type_synonym page = "comment list \<times> string option"

text \<open>The server answers the requests numbered \<open>n\<close>, \<open>n + 1\<close>, ... with the given pages.\<close>

fun serves :: "(nat \<Rightarrow> response) \<Rightarrow> nat \<Rightarrow> page list \<Rightarrow> bool" where
  "serves srv n [] = True"
| "serves srv n ((items, tok) # ps) = (srv n = Data items tok \<and> serves srv (Suc n) ps)"

text \<open>Every page carries a continuation token.\<close>

definition continuing :: "page list \<Rightarrow> bool" where
  "continuing ps = list_all (\<lambda>p. \<not> falsy (snd p)) ps"

text \<open>A non-empty sequence of pages of which exactly the last carries no continuation token.\<close>

definition paged :: "page list \<Rightarrow> bool" where
  "paged ps = (ps \<noteq> [] \<and> continuing (butlast ps) \<and> falsy (snd (last ps)))"

text \<open>The loop body run over a list of pages: each page costs one request, sent with the
  token of the page before.\<close>

fun run_pages ::
  "string \<Rightarrow> string \<Rightarrow> page list \<Rightarrow> world \<Rightarrow> comment list \<Rightarrow> string option \<Rightarrow> int
     \<Rightarrow> world \<times> comment list \<times> string option \<times> int" where
  "run_pages video_id api_key [] w comments tok total_comments = (w, comments, tok, total_comments)"
| "run_pages video_id api_key ((items, tok') # ps) w comments tok total_comments =
     (case process_page video_id (send_request w (request_params video_id api_key tok))
             comments total_comments items of
        (w2, comments2, total2) \<Rightarrow> run_pages video_id api_key ps w2 comments2 tok' total2)"

text \<open>The batches that the loop flushes when it starts with the pending records \<open>cs\<close> and
  receives the given pages, and the records still pending afterwards.\<close>

fun flushed :: "'a list \<Rightarrow> 'a list list \<Rightarrow> 'a list list" where
  "flushed cs [] = []"
| "flushed cs (p # ps) =
     (if 100 \<le> length (cs @ p) then (cs @ p) # flushed [] ps else flushed (cs @ p) ps)"

fun unflushed :: "'a list \<Rightarrow> 'a list list \<Rightarrow> 'a list" where
  "unflushed cs [] = cs"
| "unflushed cs (p # ps) =
     (if 100 \<le> length (cs @ p) then unflushed [] ps else unflushed (cs @ p) ps)"

text \<open>Every page that the server sends holds at most 100 items (the requests ask for
  \<open>maxResults = 100\<close>).\<close>

definition page_sizes_ok :: "(nat \<Rightarrow> response) \<Rightarrow> bool" where
  "page_sizes_ok srv =
     (\<forall>n. case srv n of Raises e \<Rightarrow> True | Data items tok \<Rightarrow> length items \<le> 100)"

text \<open>No write of the run fails.\<close>

definition no_faults :: "world \<Rightarrow> bool" where
  "no_faults w = (\<forall>n. write_faults w n = None)"

text \<open>The message of the exception that a failing write raises.\<close>

fun fault_message :: "fault \<Rightarrow> string" where
  "fault_message (MarkdownFails p e) = e"
| "fault_message (CsvFails p e) = e"
| "fault_message (JsonFails e) = e"

text \<open>The flush writes the whole CSV output: neither the Markdown nor the CSV write fails.\<close>

fun reaches_csv :: "fault option \<Rightarrow> bool" where
  "reaches_csv (Some (MarkdownFails p e)) = False"
| "reaches_csv (Some (CsvFails p e)) = False"
| "reaches_csv (Some (JsonFails e)) = True"
| "reaches_csv None = True"

text \<open>The number of header rows in a CSV file.\<close>

definition csv_header_count :: "string \<Rightarrow> world \<Rightarrow> nat" where
  "csv_header_count name w = count_list (file_content (csv_files w) name) csv_header"

section \<open>Example inputs\<close>

text \<open>A server that answers with the given pages in order and refuses every later request.\<close>

definition script :: "page list \<Rightarrow> nat \<Rightarrow> response" where
  "script ps n =
     (if n < length ps then Data (fst (ps ! n)) (snd (ps ! n))
      else Raises (RequestException ''connection refused''))"

definition example_comment :: comment where
  "example_comment =
     \<lparr>author = ''ada'', comment_text = ''first'', published_at = ''2024-01-01T00:00:00Z''\<rparr>"

definition example_pages :: "page list" where
  "example_pages = [([example_comment], Some ''CDIQAA''), ([example_comment, example_comment], None)]"

definition no_fault :: "nat \<Rightarrow> fault option" where
  "no_fault n = None"

definition json_fault :: "nat \<Rightarrow> fault option" where
  "json_fault n = Some (JsonFails ''disk full'')"

text \<open>A fresh working directory, an API key in the environment, no failing write.\<close>

definition example_world :: world where
  "example_world =
     \<lparr>api_key_env = Some ''KEY'', responses = script [], write_faults = no_fault,
      today = ''20240101'', markdown_files = Map.empty, csv_files = Map.empty,
      json_files = Map.empty, logged = [], requests = [], save_calls = []\<rparr>"

text \<open>The same directory after an earlier run of the same day has saved three comments of the
  video \<open>dQw4w9WgXcQ\<close> to its Markdown file.\<close>

definition resumed_world :: world where
  "resumed_world =
     example_world\<lparr>markdown_files :=
       [markdown_file_name ''dQw4w9WgXcQ'' ''20240101''
          \<mapsto> md_text 1 [example_comment, example_comment, example_comment]]\<rparr>"

text \<open>Two pages: a full page of 100 records, then a last page of one record.\<close>

definition full_then_last :: "page list" where
  "full_then_last = [(replicate 100 example_comment, Some ''CDIQAA''), ([example_comment], None)]"

section \<open>Properties of the identifier extraction\<close>

lemma match_at_Nil: "match_at [] = None"
  by (simp add: match_at_def match_group_def)

lemma match_group_prefix:
  "length vid = 11 \<Longrightarrow> list_all is_id_char vid \<Longrightarrow> match_group (vid @ post) = Some vid"
  by (simp add: match_group_def)

lemma match_at_separator:
  assumes "sep = ''v='' \<or> sep = ''/''" and "length vid = 11" and "list_all is_id_char vid"
  shows "match_at (sep @ vid @ post) = Some vid"
  using assms by (auto simp: match_at_def match_group_prefix)

lemma re_search_hit: "match_at s = Some g \<Longrightarrow> re_search s = Some g"
  by (cases s) (simp_all)

lemma no_match_before_Suc:
  "no_match_before (Suc n) (c # cs) = (match_at (c # cs) = None \<and> no_match_before n cs)"
proof -
  have "[0..<Suc n] = 0 # map Suc [0..<n]"
    by (simp add: upt_conv_Cons map_Suc_upt del: upt_Suc)
  then have "no_match_before (Suc n) (c # cs)
      = list_all (\<lambda>k. match_at (drop k (c # cs)) = None) (0 # map Suc [0..<n])"
    unfolding no_match_before_def by (simp only:)
  also have "\<dots> = (match_at (c # cs) = None \<and> no_match_before n cs)"
    by (simp add: no_match_before_def list.pred_map comp_def del: upt_Suc)
  finally show ?thesis .
qed

lemma re_search_skip:
  "no_match_before (length pre) (pre @ s) \<Longrightarrow> re_search (pre @ s) = re_search s"
proof (induction pre)
  case Nil
  then show ?case by simp
next
  case (Cons c pre)
  from Cons.prems have none: "match_at (c # pre @ s) = None"
    and rest: "no_match_before (length pre) (pre @ s)"
    by (simp_all add: no_match_before_Suc)
  from none have "re_search ((c # pre) @ s) = re_search (pre @ s)" by simp
  with Cons.IH [OF rest] show ?case by simp
qed

text \<open>
  Claim C5, as amended. \<open>extract_video_id\<close> returns the eleven characters that follow
  the leftmost \<open>v=\<close> or \<open>/\<close> which is immediately followed by eleven identifier
  characters: when a well-formed segment \<open>vid\<close> follows a separator and no earlier start
  position of the URL matches, the result is exactly \<open>vid\<close>. On the URL
  \<open>https://www.youtube.com/watch?v=dQw4w9WgXcQ&t=5s\<close> the result is \<open>dQw4w9WgXcQ\<close>.
\<close>

theorem extract_video_id_leftmost_segment:
  "(sep = ''v='' \<or> sep = ''/'' \<longrightarrow> length vid = 11 \<longrightarrow> list_all is_id_char vid \<longrightarrow>
      no_match_before (length pre) (pre @ sep @ vid @ post) \<longrightarrow>
      extract_video_id (pre @ sep @ vid @ post) = Some vid)
   \<and> extract_video_id ''https://www.youtube.com/watch?v=dQw4w9WgXcQ&t=5s'' = Some ''dQw4w9WgXcQ''"
proof
  show "sep = ''v='' \<or> sep = ''/'' \<longrightarrow> length vid = 11 \<longrightarrow> list_all is_id_char vid \<longrightarrow>
      no_match_before (length pre) (pre @ sep @ vid @ post) \<longrightarrow>
      extract_video_id (pre @ sep @ vid @ post) = Some vid"
  proof (intro impI)
    assume sep: "sep = ''v='' \<or> sep = ''/''" and len: "length vid = 11"
      and ok: "list_all is_id_char vid"
      and first: "no_match_before (length pre) (pre @ sep @ vid @ post)"
    have "re_search (pre @ sep @ vid @ post) = re_search (sep @ vid @ post)"
      using first by (rule re_search_skip)
    also have "\<dots> = Some vid"
      using match_at_separator [OF sep len ok] by (rule re_search_hit)
    finally show "extract_video_id (pre @ sep @ vid @ post) = Some vid"
      by (simp add: extract_video_id_def)
  qed
next
  show "extract_video_id ''https://www.youtube.com/watch?v=dQw4w9WgXcQ&t=5s'' = Some ''dQw4w9WgXcQ''"
    by (simp add: extract_video_id_def match_at_def match_group_def is_id_char_def id_chars_def)
qed

theorem extract_video_id_leftmost_segment_witness:
  "(''/'' = ''v='' \<or> ''/'' = ''/'') \<and> length ''dQw4w9WgXcQ'' = 11
   \<and> list_all is_id_char ''dQw4w9WgXcQ''
   \<and> no_match_before (length ''https://youtu.be'') (''https://youtu.be'' @ ''/'' @ ''dQw4w9WgXcQ'' @ ''?t=5'')
   \<and> extract_video_id (''https://youtu.be'' @ ''/'' @ ''dQw4w9WgXcQ'' @ ''?t=5'') = Some ''dQw4w9WgXcQ''"
proof -
  have h1: "''/'' = ''v='' \<or> ''/'' = ''/''" by simp
  have h2: "length ''dQw4w9WgXcQ'' = 11" by simp
  have h3: "list_all is_id_char ''dQw4w9WgXcQ''"
    by (simp add: is_id_char_def id_chars_def)
  have h4: "no_match_before (length ''https://youtu.be'')
              (''https://youtu.be'' @ ''/'' @ ''dQw4w9WgXcQ'' @ ''?t=5'')"
    by (simp add: no_match_before_def upt_rec match_at_def match_group_def
        is_id_char_def id_chars_def)
  from extract_video_id_leftmost_segment
    [of "''/''" "''dQw4w9WgXcQ''" "''https://youtu.be''" "''?t=5''"] h1 h2 h3 h4
  show ?thesis by blast
qed

text \<open>
  Claim C5, as stated, fails: the URL below contains the well-formed segment
  \<open>dQw4w9WgXcQ\<close> immediately after \<open>v=\<close>, yet the leftmost match is the \<open>/\<close> in front
  of \<open>attribution_link\<close>, and the result is \<open>attribution\<close>.
\<close>

theorem extract_video_id_counterexample:
  "''https://www.youtube.com/attribution_link?v=dQw4w9WgXcQ''
     = ''https://www.youtube.com/attribution_link?'' @ ''v='' @ ''dQw4w9WgXcQ'' @ []
   \<and> length ''dQw4w9WgXcQ'' = 11 \<and> list_all is_id_char ''dQw4w9WgXcQ''
   \<and> extract_video_id ''https://www.youtube.com/attribution_link?v=dQw4w9WgXcQ''
       = Some ''attribution''
   \<and> extract_video_id ''https://www.youtube.com/attribution_link?v=dQw4w9WgXcQ''
       \<noteq> Some ''dQw4w9WgXcQ''"
  by (simp add: extract_video_id_def match_at_def match_group_def is_id_char_def id_chars_def)

section \<open>What a flush and a page leave unchanged\<close>

lemma file_content_append_file [simp]:
  "file_content (append_file fs name xs) name = file_content fs name @ xs"
  by (simp add: append_file_def file_content_def)

lemma save_comments_static:
  assumes "save_comments w cs s vid = (w', s')"
  shows "responses w' = responses w" and "write_faults w' = write_faults w"
    and "today w' = today w" and "api_key_env w' = api_key_env w"
    and "requests w' = requests w" and "save_calls w' = save_calls w @ [(cs, s)]"
  using assms
  by (auto simp: save_comments_def Let_def log_error_def write_markdown_def write_csv_def
      write_json_def write_markdown_part_def write_csv_part_def
      split: option.splits fault.splits progress.splits)

lemma process_page_static:
  assumes "process_page vid w cs t items = (w', cs', t')"
  shows "responses w' = responses w" and "write_faults w' = write_faults w"
    and "today w' = today w" and "api_key_env w' = api_key_env w"
    and "requests w' = requests w"
    and "save_calls w' = save_calls w @ (if 100 \<le> length (cs @ items) then [(cs @ items, t)] else [])"
    and "cs' = (if 100 \<le> length (cs @ items) then [] else cs @ items)"
  using assms
  by (auto simp: process_page_def Let_def split: if_splits prod.splits dest: save_comments_static)

lemma send_request_simps [simp]:
  "responses (send_request w p) = responses w"
  "write_faults (send_request w p) = write_faults w"
  "today (send_request w p) = today w"
  "api_key_env (send_request w p) = api_key_env w"
  "requests (send_request w p) = requests w @ [p]"
  "save_calls (send_request w p) = save_calls w"
  "markdown_files (send_request w p) = markdown_files w"
  "csv_files (send_request w p) = csv_files w"
  "json_files (send_request w p) = json_files w"
  "logged (send_request w p) = logged w"
  by (simp_all add: send_request_def)

lemma run_pages_static:
  assumes "run_pages vid k ps w cs tok t = (w', cs', tok', t')"
  shows "responses w' = responses w \<and> write_faults w' = write_faults w
    \<and> today w' = today w \<and> api_key_env w' = api_key_env w
    \<and> length (requests w') = length (requests w) + length ps
    \<and> map fst (save_calls w') = map fst (save_calls w) @ flushed cs (map fst ps)
    \<and> cs' = unflushed cs (map fst ps)
    \<and> tok' = (if ps = [] then tok else snd (last ps))"
  using assms
proof (induction ps arbitrary: w cs tok t)
  case Nil
  then show ?case by simp
next
  case (Cons p ps)
  obtain items tk where p: "p = (items, tk)" by (cases p)
  obtain w2 cs2 t2 where
    pp: "process_page vid (send_request w (request_params vid k tok)) cs t items = (w2, cs2, t2)"
    by (cases "process_page vid (send_request w (request_params vid k tok)) cs t items")
  from Cons.prems p pp have rest: "run_pages vid k ps w2 cs2 tk t2 = (w', cs', tok', t')"
    by simp
  note st = process_page_static [OF pp]
  from Cons.IH [OF rest] st show ?case
    by (simp add: p)
qed


lemma paged_Cons:
  "paged ((items, tok) # ps) = (if ps = [] then falsy tok else \<not> falsy tok \<and> paged ps)"
  by (cases ps) (auto simp: paged_def continuing_def)

lemma fetch_loop_run_pages:
  assumes "serves (responses w) (length (requests w)) ps" and "paged ps"
  shows "fetch_loop vid k w cs tok t =
           (case run_pages vid k ps w cs tok t of
              (w', cs', tok', t') \<Rightarrow> Some (w', Inr (cs', t')))"
  using assms
proof (induction ps arbitrary: w cs tok t)
  case Nil
  then show ?case by (simp add: paged_def)
next
  case (Cons p ps)
  obtain items tk where p: "p = (items, tk)" by (cases p)
  obtain w2 cs2 t2 where
    pp: "process_page vid (send_request w (request_params vid k tok)) cs t items = (w2, cs2, t2)"
    by (cases "process_page vid (send_request w (request_params vid k tok)) cs t items")
  note st = process_page_static [OF pp]
  from Cons.prems p have resp: "responses w (length (requests w)) = Data items tk"
    and srv: "serves (responses w) (Suc (length (requests w))) ps"
    by simp_all
  show ?case
  proof (cases "ps = []")
    case True
    with Cons.prems p have "falsy tk" by (simp add: paged_Cons)
    with resp pp True show ?thesis
      by (subst fetch_loop.simps) (simp add: p Let_def)
  next
    case False
    with Cons.prems p have tk: "\<not> falsy tk" and pg: "paged ps" by (simp_all add: paged_Cons)
    from srv st have "serves (responses w2) (length (requests w2)) ps" by simp
    from Cons.IH [OF this pg]
    have "fetch_loop vid k w2 cs2 tk t2 =
           (case run_pages vid k ps w2 cs2 tk t2 of
              (w', cs', tok', t') \<Rightarrow> Some (w', Inr (cs', t')))" .
    with resp pp tk show ?thesis
      by (subst fetch_loop.simps) (simp add: p Let_def)
  qed
qed

lemma fetch_loop_raises:
  assumes "serves (responses w) (length (requests w)) ps" and "continuing ps"
    and "responses w (length (requests w) + length ps) = Raises e"
  shows "fetch_loop vid k w cs tok t =
           (case run_pages vid k ps w cs tok t of
              (w', cs', tok', t') \<Rightarrow>
                Some (send_request w' (request_params vid k tok'), Inl e))"
  using assms
proof (induction ps arbitrary: w cs tok t)
  case Nil
  then show ?case
    by (subst fetch_loop.simps) (simp add: Let_def)
next
  case (Cons p ps)
  obtain items tk where p: "p = (items, tk)" by (cases p)
  obtain w2 cs2 t2 where
    pp: "process_page vid (send_request w (request_params vid k tok)) cs t items = (w2, cs2, t2)"
    by (cases "process_page vid (send_request w (request_params vid k tok)) cs t items")
  note st = process_page_static [OF pp]
  from Cons.prems p have resp: "responses w (length (requests w)) = Data items tk"
    and srv: "serves (responses w) (Suc (length (requests w))) ps"
    and tk: "\<not> falsy tk" and cont: "continuing ps"
    by (simp_all add: continuing_def)
  from srv st have srv2: "serves (responses w2) (length (requests w2)) ps" by simp
  from Cons.prems(3) st have "responses w2 (length (requests w2) + length ps) = Raises e"
    by simp
  from Cons.IH [OF srv2 cont this]
  have "fetch_loop vid k w2 cs2 tk t2 =
           (case run_pages vid k ps w2 cs2 tk t2 of
              (w', cs', tok', t') \<Rightarrow>
                Some (send_request w' (request_params vid k tok'), Inl e))" .
  with resp pp tk show ?case
    by (subst fetch_loop.simps) (simp add: p Let_def)
qed

section \<open>Batches, numbering and a flush without failing write\<close>

lemma flushed_unflushed_concat:
  "concat (flushed cs ps) @ unflushed cs ps = cs @ concat ps"
  by (induction ps arbitrary: cs) auto

lemma flushed_at_least:
  "b \<in> set (flushed cs ps) \<Longrightarrow> 100 \<le> length b"
  by (induction ps arbitrary: cs) (auto split: if_splits)

lemma flushed_at_most:
  "length cs < 100 \<Longrightarrow> \<forall>p\<in>set ps. length p \<le> 100 \<Longrightarrow> b \<in> set (flushed cs ps)
     \<Longrightarrow> length b \<le> 199"
proof (induction ps arbitrary: cs)
  case Nil
  then show ?case by simp
next
  case (Cons p ps)
  show ?case
  proof (cases "100 \<le> length (cs @ p)")
    case True
    with Cons.prems(3) have "b = cs @ p \<or> b \<in> set (flushed [] ps)" by simp
    then show ?thesis
    proof
      assume "b = cs @ p"
      with Cons.prems(1,2) show ?thesis by simp
    next
      assume "b \<in> set (flushed [] ps)"
      with Cons.IH [of "[]"] Cons.prems(2) show ?thesis by simp
    qed
  next
    case False
    with Cons.prems(3) have "b \<in> set (flushed (cs @ p) ps)" by simp
    with Cons.IH [of "cs @ p"] False Cons.prems(2) show ?thesis by simp
  qed
qed

lemma unflushed_short:
  "length cs < 100 \<Longrightarrow> length (unflushed cs ps) < 100"
  by (induction ps arbitrary: cs) auto

lemma unflushed_snoc:
  "unflushed cs (ps @ [p]) =
     (if 100 \<le> length (unflushed cs ps @ p) then [] else unflushed cs ps @ p)"
  by (induction ps arbitrary: cs) auto

lemma concat_length_lower:
  "\<forall>b\<in>set bs. n \<le> length b \<Longrightarrow> n * length bs \<le> length (concat bs)"
  by (induction bs) auto

lemma concat_length_upper:
  "\<forall>b\<in>set bs. length b \<le> n \<Longrightarrow> length (concat bs) \<le> n * length bs"
  by (induction bs) auto

lemma enumerate_from_append:
  "enumerate_from s (xs @ ys) = enumerate_from s xs @ enumerate_from (s + int (length xs)) ys"
  by (induction xs arbitrary: s) (auto simp: algebra_simps)

lemma md_text_append:
  "md_text s (xs @ ys) = md_text s xs @ md_text (s + int (length xs)) ys"
  by (simp add: md_text_def enumerate_from_append)

lemma csv_rows_append:
  "csv_rows s (xs @ ys) = csv_rows s xs @ csv_rows (s + int (length xs)) ys"
  by (simp add: csv_rows_def enumerate_from_append)

lemma enumerate_from_indices:
  "map fst (enumerate_from s xs) = map (\<lambda>k. s + int k) [0..<length xs]"
proof (induction xs arbitrary: s)
  case Nil
  then show ?case by simp
next
  case (Cons x xs)
  have "[0..<length (x # xs)] = 0 # map Suc [0..<length xs]"
    by (simp add: upt_conv_Cons map_Suc_upt del: upt_Suc)
  then show ?case
    by (simp add: Cons.IH comp_def algebra_simps del: upt_Suc)
qed

lemma csv_header_not_row: "csv_header \<notin> set (csv_rows s cs)"
  by (auto simp: csv_rows_def csv_header_def csv_row_def)

lemma count_header_rows [simp]: "count_list (csv_rows s cs) csv_header = 0"
  using csv_header_not_row by (simp add: count_list_0_iff)

lemma save_comments_ok:
  assumes "write_faults w (length (save_calls w)) = None"
    and "save_comments w cs s vid = (w', s')"
  shows "s' = s + int (length cs)"
    and "logged w' = logged w"
    and "markdown_files w' = append_file (markdown_files w)
           (markdown_file_name vid (today w)) (md_text (s + 1) cs)"
    and "csv_files w' = append_file (csv_files w) (csv_file_name vid (today w))
           ((if s = 0 then [csv_header] else []) @ csv_rows (s + 1) cs)"
    and "json_files w' = append_file (json_files w) (json_file_name vid (today w)) [cs]"
  using assms
  by (auto simp: save_comments_def Let_def write_markdown_def write_csv_def write_json_def)

section \<open>The loop over a list of pages when no write fails\<close>

lemma run_pages_ok:
  assumes "no_faults w" and "0 \<le> t" and "run_pages vid k ps w cs tok t = (w', cs', tok', t')"
  shows "t' = t + int (length (concat (flushed cs (map fst ps))))
    \<and> logged w' = logged w
    \<and> file_content (markdown_files w') (markdown_file_name vid (today w))
        = file_content (markdown_files w) (markdown_file_name vid (today w))
          @ md_text (t + 1) (concat (flushed cs (map fst ps)))
    \<and> file_content (csv_files w') (csv_file_name vid (today w))
        = file_content (csv_files w) (csv_file_name vid (today w))
          @ (if t = 0 \<and> flushed cs (map fst ps) \<noteq> [] then [csv_header] else [])
          @ csv_rows (t + 1) (concat (flushed cs (map fst ps)))
    \<and> file_content (json_files w') (json_file_name vid (today w))
        = file_content (json_files w) (json_file_name vid (today w)) @ flushed cs (map fst ps)"
  using assms
proof (induction ps arbitrary: w cs tok t)
  case Nil
  then show ?case by (simp add: md_text_def csv_rows_def)
next
  case (Cons p ps)
  obtain items tk where p: "p = (items, tk)" by (cases p)
  let ?w1 = "send_request w (request_params vid k tok)"
  show ?case
  proof (cases "100 \<le> length (cs @ items)")
    case False
    with Cons.prems(3) p have rest: "run_pages vid k ps ?w1 (cs @ items) tk t = (w', cs', tok', t')"
      by (simp add: process_page_def Let_def)
    have nf: "no_faults ?w1" using Cons.prems(1) by (simp add: no_faults_def)
    from Cons.IH [OF nf Cons.prems(2) rest] False show ?thesis
      by (simp add: p)
  next
    case True
    obtain w2 t2 where sv: "save_comments ?w1 (cs @ items) t vid = (w2, t2)"
      by (cases "save_comments ?w1 (cs @ items) t vid")
    from Cons.prems(1) have f0: "write_faults ?w1 (length (save_calls ?w1)) = None"
      by (simp add: no_faults_def)
    note ok = save_comments_ok [OF f0 sv]
    note st = save_comments_static [OF sv]
    from Cons.prems(3) p True sv have rest: "run_pages vid k ps w2 [] tk t2 = (w', cs', tok', t')"
      by (simp add: process_page_def Let_def)
    have nf: "no_faults w2" using Cons.prems(1) st(2) by (simp add: no_faults_def)
    from ok(1) True Cons.prems(2) have t2: "t2 = t + int (length (cs @ items))" and pos: "0 < t2"
      by simp_all
    from pos have nn: "0 \<le> t2" and nz: "t2 \<noteq> 0" by simp_all
    note ih = Cons.IH [OF nf nn rest]
    have fl: "flushed cs (map fst (p # ps)) = (cs @ items) # flushed [] (map fst ps)"
      using True by (simp add: p)
    have td: "today w2 = today w" using st(3) by simp
    have a: "t' = t + int (length (concat (flushed cs (map fst (p # ps)))))"
      using ih t2 by (simp only: fl) simp
    have b: "logged w' = logged w"
      using ih ok(2) by simp
    have c: "file_content (markdown_files w') (markdown_file_name vid (today w))
        = file_content (markdown_files w) (markdown_file_name vid (today w))
          @ md_text (t + 1) (concat (flushed cs (map fst (p # ps))))"
    proof -
      have "file_content (markdown_files w2) (markdown_file_name vid (today w))
          = file_content (markdown_files w) (markdown_file_name vid (today w))
            @ md_text (t + 1) (cs @ items)"
        using ok(3) by simp
      moreover have "md_text (t + 1) (concat (flushed cs (map fst (p # ps))))
          = md_text (t + 1) (cs @ items) @ md_text (t2 + 1) (concat (flushed [] (map fst ps)))"
        unfolding fl using md_text_append [of "t + 1" "cs @ items"] t2
        by (simp add: algebra_simps del: flushed.simps)
      ultimately show ?thesis unfolding fl using ih td by simp
    qed
    have d: "file_content (csv_files w') (csv_file_name vid (today w))
        = file_content (csv_files w) (csv_file_name vid (today w))
          @ (if t = 0 \<and> flushed cs (map fst (p # ps)) \<noteq> [] then [csv_header] else [])
          @ csv_rows (t + 1) (concat (flushed cs (map fst (p # ps))))"
    proof -
      have "file_content (csv_files w2) (csv_file_name vid (today w))
          = file_content (csv_files w) (csv_file_name vid (today w))
            @ (if t = 0 then [csv_header] else []) @ csv_rows (t + 1) (cs @ items)"
        using ok(4) by simp
      moreover have "csv_rows (t + 1) (concat (flushed cs (map fst (p # ps))))
          = csv_rows (t + 1) (cs @ items) @ csv_rows (t2 + 1) (concat (flushed [] (map fst ps)))"
        unfolding fl using csv_rows_append [of "t + 1" "cs @ items"] t2
        by (simp add: algebra_simps)
      moreover have "file_content (csv_files w') (csv_file_name vid (today w))
          = file_content (csv_files w2) (csv_file_name vid (today w))
            @ csv_rows (t2 + 1) (concat (flushed [] (map fst ps)))"
        using ih td nz by simp
      ultimately show ?thesis unfolding fl by simp
    qed
    have e: "file_content (json_files w') (json_file_name vid (today w))
        = file_content (json_files w) (json_file_name vid (today w)) @ flushed cs (map fst (p # ps))"
      unfolding fl using ih td ok(5) by simp
    from a b c d e show ?thesis by blast
  qed
qed

lemma get_current_comment_count_eq:
  "get_current_comment_count w =
     (log_error w (''Current comment count could not be retrieved: name ''
        @ [CHR 0x27] @ ''video_id'' @ [CHR 0x27] @ '' is not defined''), 0)"
  by (simp add: get_current_comment_count_def load_name_def get_current_comment_count_scope_def
      module_globals_def)

section \<open>A run over a complete sequence of pages\<close>

lemma log_simps [simp]:
  "responses (log_info w m) = responses w" "responses (log_error w m) = responses w"
  "write_faults (log_info w m) = write_faults w" "write_faults (log_error w m) = write_faults w"
  "today (log_info w m) = today w" "today (log_error w m) = today w"
  "api_key_env (log_info w m) = api_key_env w" "api_key_env (log_error w m) = api_key_env w"
  "requests (log_info w m) = requests w" "requests (log_error w m) = requests w"
  "save_calls (log_info w m) = save_calls w" "save_calls (log_error w m) = save_calls w"
  "markdown_files (log_info w m) = markdown_files w" "markdown_files (log_error w m) = markdown_files w"
  "csv_files (log_info w m) = csv_files w" "csv_files (log_error w m) = csv_files w"
  "json_files (log_info w m) = json_files w" "json_files (log_error w m) = json_files w"
  "logged (log_info w m) = logged w @ [(INFO, m)]" "logged (log_error w m) = logged w @ [(ERROR, m)]"
  by (simp_all add: log_info_def log_error_def)

lemma no_faults_log [simp]:
  "no_faults (log_info w m) = no_faults w" "no_faults (log_error w m) = no_faults w"
  by (simp_all add: no_faults_def)

lemma run_as_run_pages:
  assumes key: "api_key_env w = Some k" "k \<noteq> []"
    and srv: "serves (responses w) (length (requests w)) ps" and pg: "paged ps"
  shows "YouTubeCommentsTool_run w vid =
           (case run_pages vid k ps
                   (fst (get_current_comment_count (log_info w (''Using API Key: '' @ k))))
                   [] None 0 of
              (wl, cs, tok, t) \<Rightarrow>
                Some (log_info (fst (save_comments wl cs t vid))
                        (''Total '' @ str_int t @ '' comments fetched.''), cs))"
proof -
  define w0 where "w0 = fst (get_current_comment_count (log_info w (''Using API Key: '' @ k)))"
  have g: "get_current_comment_count (log_info w (''Using API Key: '' @ k)) = (w0, 0)"
    by (simp add: w0_def get_current_comment_count_eq)
  from srv have "serves (responses w0) (length (requests w0)) ps"
    by (simp add: w0_def get_current_comment_count_eq)
  note loop = fetch_loop_run_pages [OF this pg, of vid k "[]" None 0]
  obtain wl cs tok t where rp: "run_pages vid k ps w0 [] None 0 = (wl, cs, tok, t)"
    by (cases "run_pages vid k ps w0 [] None 0")
  from key g loop rp show ?thesis
    unfolding w0_def [symmetric]
    by (simp add: YouTubeCommentsTool_run_def split: prod.splits)
qed

lemma run_paged_facts:
  assumes key: "api_key_env w = Some k" "k \<noteq> []"
    and srv: "serves (responses w) (length (requests w)) ps" and pg: "paged ps"
  shows "\<exists>w'. YouTubeCommentsTool_run w vid = Some (w', unflushed [] (map fst ps))
    \<and> map fst (save_calls w')
        = map fst (save_calls w) @ flushed [] (map fst ps) @ [unflushed [] (map fst ps)]
    \<and> length (requests w') = length (requests w) + length ps
    \<and> (no_faults w \<longrightarrow>
         file_content (markdown_files w') (markdown_file_name vid (today w))
           = file_content (markdown_files w) (markdown_file_name vid (today w))
             @ md_text 1 (concat (map fst ps))
       \<and> file_content (csv_files w') (csv_file_name vid (today w))
           = file_content (csv_files w) (csv_file_name vid (today w))
             @ csv_header # csv_rows 1 (concat (map fst ps))
       \<and> file_content (json_files w') (json_file_name vid (today w))
           = file_content (json_files w) (json_file_name vid (today w))
             @ flushed [] (map fst ps) @ [unflushed [] (map fst ps)])"
proof -
  let ?bs = "flushed [] (map fst ps)" and ?r = "unflushed [] (map fst ps)"
  define w0 where "w0 = fst (get_current_comment_count (log_info w (''Using API Key: '' @ k)))"
  have g: "get_current_comment_count (log_info w (''Using API Key: '' @ k)) = (w0, 0)"
    by (simp add: w0_def get_current_comment_count_eq)
  have w0: "responses w0 = responses w" "requests w0 = requests w" "save_calls w0 = save_calls w"
    "write_faults w0 = write_faults w" "today w0 = today w"
    "markdown_files w0 = markdown_files w" "csv_files w0 = csv_files w"
    "json_files w0 = json_files w"
    by (simp_all add: w0_def get_current_comment_count_eq)
  obtain wl cs tok t where rp: "run_pages vid k ps w0 [] None 0 = (wl, cs, tok, t)"
    by (cases "run_pages vid k ps w0 [] None 0")
  from run_pages_static [OF rp] w0
  have st: "responses wl = responses w" "write_faults wl = write_faults w" "today wl = today w"
    "length (requests wl) = length (requests w) + length ps"
    "map fst (save_calls wl) = map fst (save_calls w) @ ?bs" "cs = ?r"
    by simp_all
  from srv w0 have "serves (responses w0) (length (requests w0)) ps" by simp
  from fetch_loop_run_pages [OF this pg, of vid k "[]" None 0] rp
  have loop: "fetch_loop vid k w0 [] None 0 = Some (wl, Inr (cs, t))" by simp
  obtain w4 t4 where sv: "save_comments wl cs t vid = (w4, t4)"
    by (cases "save_comments wl cs t vid")
  note sv_st = save_comments_static [OF sv]
  define w' where "w' = log_info w4 (''Total '' @ str_int t @ '' comments fetched.'')"
  from key g loop sv have run: "YouTubeCommentsTool_run w vid = Some (w', cs)"
    by (simp add: YouTubeCommentsTool_run_def w'_def)
  have calls: "map fst (save_calls w') = map fst (save_calls w) @ ?bs @ [?r]"
    using sv_st(6) st(5,6) by (simp add: w'_def)
  have reqs: "length (requests w') = length (requests w) + length ps"
    using sv_st(5) st(4) by (simp add: w'_def)
  have files: "file_content (markdown_files w') (markdown_file_name vid (today w))
           = file_content (markdown_files w) (markdown_file_name vid (today w))
             @ md_text 1 (concat (map fst ps))
       \<and> file_content (csv_files w') (csv_file_name vid (today w))
           = file_content (csv_files w) (csv_file_name vid (today w))
             @ csv_header # csv_rows 1 (concat (map fst ps))
       \<and> file_content (json_files w') (json_file_name vid (today w))
           = file_content (json_files w) (json_file_name vid (today w)) @ ?bs @ [?r]"
    if nf: "no_faults w"
  proof -
    from nf w0 have nf0: "no_faults w0" by (simp add: no_faults_def)
    from run_pages_ok [OF nf0 _ rp] w0
    have t: "t = int (length (concat ?bs))"
      and md: "file_content (markdown_files wl) (markdown_file_name vid (today w))
        = file_content (markdown_files w) (markdown_file_name vid (today w))
          @ md_text 1 (concat ?bs)"
      and csv: "file_content (csv_files wl) (csv_file_name vid (today w))
        = file_content (csv_files w) (csv_file_name vid (today w))
          @ (if ?bs \<noteq> [] then [csv_header] else []) @ csv_rows 1 (concat ?bs)"
      and json: "file_content (json_files wl) (json_file_name vid (today w))
        = file_content (json_files w) (json_file_name vid (today w)) @ ?bs"
      by simp_all
    from nf st have "write_faults wl (length (save_calls wl)) = None"
      by (simp add: no_faults_def)
    note ok = save_comments_ok [OF this sv]
    have all: "concat ?bs @ ?r = concat (map fst ps)"
      using flushed_unflushed_concat [of "[]" "map fst ps"] by simp
    have tz: "(t = 0) = (?bs = [])"
    proof
      assume "t = 0"
      with t have z: "length (concat ?bs) = 0" by simp
      show "?bs = []"
      proof (rule ccontr)
        assume "?bs \<noteq> []"
        then obtain b where b: "b \<in> set ?bs" by (cases ?bs) auto
        then have "100 \<le> length b" by (rule flushed_at_least)
        moreover from b z have "length b = 0" by auto
        ultimately show False by simp
      qed
    next
      assume "?bs = []"
      with t show "t = 0" by simp
    qed
    have m: "file_content (markdown_files w') (markdown_file_name vid (today w))
           = file_content (markdown_files w) (markdown_file_name vid (today w))
             @ md_text 1 (concat (map fst ps))"
      using ok(3) md st(3,6) t md_text_append [of 1 "concat ?bs" ?r] all
      by (simp add: w'_def algebra_simps)
    have c: "file_content (csv_files w') (csv_file_name vid (today w))
           = file_content (csv_files w) (csv_file_name vid (today w))
             @ csv_header # csv_rows 1 (concat (map fst ps))"
    proof (cases "?bs = []")
      case True
      with tz have "t = 0" by simp
      with ok(4) csv st(3,6) True all show ?thesis
        by (simp add: w'_def csv_rows_def)
    next
      case False
      with tz have "t \<noteq> 0" by simp
      with ok(4) csv st(3,6) False t csv_rows_append [of 1 "concat ?bs" ?r] all show ?thesis
        by (simp add: w'_def algebra_simps)
    qed
    have j: "file_content (json_files w') (json_file_name vid (today w))
           = file_content (json_files w) (json_file_name vid (today w)) @ ?bs @ [?r]"
      using ok(5) json st(3,6) by (simp add: w'_def)
    from m c j show ?thesis by blast
  qed
  from run calls reqs files st(6) show ?thesis by blast
qed

section \<open>A run cut short by a transport error\<close>

lemma run_raises_facts:
  assumes key: "api_key_env w = Some k" "k \<noteq> []"
    and srv: "serves (responses w) (length (requests w)) ps" and ct: "continuing ps"
    and err: "responses w (length (requests w) + length ps) = Raises (RequestException e)"
  shows "\<exists>w'. YouTubeCommentsTool_run w vid = Some (w', [])
    \<and> last (logged w') = (ERROR, ''An HTTP error occurred: '' @ e)
    \<and> map fst (save_calls w') = map fst (save_calls w) @ flushed [] (map fst ps)
    \<and> length (requests w') = length (requests w) + length ps + 1
    \<and> (no_faults w \<longrightarrow>
         file_content (markdown_files w') (markdown_file_name vid (today w))
           = file_content (markdown_files w) (markdown_file_name vid (today w))
             @ md_text 1 (concat (flushed [] (map fst ps)))
       \<and> file_content (csv_files w') (csv_file_name vid (today w))
           = file_content (csv_files w) (csv_file_name vid (today w))
             @ (if flushed [] (map fst ps) \<noteq> [] then [csv_header] else [])
             @ csv_rows 1 (concat (flushed [] (map fst ps)))
       \<and> file_content (json_files w') (json_file_name vid (today w))
           = file_content (json_files w) (json_file_name vid (today w))
             @ flushed [] (map fst ps))"
proof -
  let ?bs = "flushed [] (map fst ps)"
  define w0 where "w0 = fst (get_current_comment_count (log_info w (''Using API Key: '' @ k)))"
  have g: "get_current_comment_count (log_info w (''Using API Key: '' @ k)) = (w0, 0)"
    by (simp add: w0_def get_current_comment_count_eq)
  have w0: "responses w0 = responses w" "requests w0 = requests w" "save_calls w0 = save_calls w"
    "write_faults w0 = write_faults w" "today w0 = today w"
    "markdown_files w0 = markdown_files w" "csv_files w0 = csv_files w"
    "json_files w0 = json_files w"
    by (simp_all add: w0_def get_current_comment_count_eq)
  obtain wl cs tok t where rp: "run_pages vid k ps w0 [] None 0 = (wl, cs, tok, t)"
    by (cases "run_pages vid k ps w0 [] None 0")
  from run_pages_static [OF rp] w0
  have st: "length (requests wl) = length (requests w) + length ps"
    "map fst (save_calls wl) = map fst (save_calls w) @ ?bs"
    by simp_all
  from srv w0 have s0: "serves (responses w0) (length (requests w0)) ps" by simp
  from err w0 have e0: "responses w0 (length (requests w0) + length ps) = Raises (RequestException e)"
    by simp
  define w3 where "w3 = send_request wl (request_params vid k tok)"
  from fetch_loop_raises [OF s0 ct e0, of vid k "[]" None 0] rp
  have loop: "fetch_loop vid k w0 [] None 0 = Some (w3, Inl (RequestException e))"
    by (simp add: w3_def)
  define w' where "w' = log_error w3 (''An HTTP error occurred: '' @ e)"
  from key g loop have run: "YouTubeCommentsTool_run w vid = Some (w', [])"
    by (simp add: YouTubeCommentsTool_run_def w'_def)
  have lg: "last (logged w') = (ERROR, ''An HTTP error occurred: '' @ e)"
    by (simp add: w'_def)
  have calls: "map fst (save_calls w') = map fst (save_calls w) @ ?bs"
    using st(2) by (simp add: w'_def w3_def)
  have reqs: "length (requests w') = length (requests w) + length ps + 1"
    using st(1) by (simp add: w'_def w3_def)
  have files: "file_content (markdown_files w') (markdown_file_name vid (today w))
           = file_content (markdown_files w) (markdown_file_name vid (today w))
             @ md_text 1 (concat ?bs)
       \<and> file_content (csv_files w') (csv_file_name vid (today w))
           = file_content (csv_files w) (csv_file_name vid (today w))
             @ (if ?bs \<noteq> [] then [csv_header] else []) @ csv_rows 1 (concat ?bs)
       \<and> file_content (json_files w') (json_file_name vid (today w))
           = file_content (json_files w) (json_file_name vid (today w)) @ ?bs"
    if nf: "no_faults w"
  proof -
    from nf w0 have nf0: "no_faults w0" by (simp add: no_faults_def)
    from run_pages_ok [OF nf0 _ rp] w0 show ?thesis
      by (simp add: w'_def w3_def)
  qed
  from run lg calls reqs files show ?thesis by blast
qed

section \<open>The number of flushes of a run\<close>

lemma example_world_key: "api_key_env (example_world\<lparr>responses := srv\<rparr>) = Some ''KEY''"
  by (simp add: example_world_def)

lemma example_world_serves:
  "serves (responses (example_world\<lparr>responses := script example_pages\<rparr>))
     (length (requests (example_world\<lparr>responses := script example_pages\<rparr>))) example_pages"
  by (simp add: example_world_def example_pages_def script_def)

lemma example_pages_paged: "paged example_pages"
  by (simp add: paged_def continuing_def falsy_def example_pages_def)

lemma example_world_no_faults: "no_faults (example_world\<lparr>responses := srv\<rparr>)"
  by (simp add: no_faults_def example_world_def no_fault_def)

lemma single_page_serves:
  "serves (responses (example_world\<lparr>responses := script [(items, tok)]\<rparr>))
     (length (requests (example_world\<lparr>responses := script [(items, tok)]\<rparr>))) [(items, tok)]"
  by (simp add: example_world_def script_def)

lemma single_page_paged: "paged [(items, None)]"
  by (simp add: paged_def continuing_def falsy_def)

lemma run_paged_observations:
  assumes "api_key_env w = Some k" and "k \<noteq> []"
    and "serves (responses w) (length (requests w)) ps" and "paged ps"
  shows "map_option snd (YouTubeCommentsTool_run w vid) = Some (unflushed [] (map fst ps))"
    and "map_option (length \<circ> save_calls \<circ> fst) (YouTubeCommentsTool_run w vid)
           = Some (length (save_calls w) + length (flushed [] (map fst ps)) + 1)"
    and "map_option (map (length \<circ> fst) \<circ> save_calls \<circ> fst) (YouTubeCommentsTool_run w vid)
           = Some (map (length \<circ> fst) (save_calls w) @ map length (flushed [] (map fst ps))
                   @ [length (unflushed [] (map fst ps))])"
proof -
  let ?bs = "flushed [] (map fst ps)" and ?r = "unflushed [] (map fst ps)"
  from run_paged_facts [OF assms, of vid] obtain w' where
    run: "YouTubeCommentsTool_run w vid = Some (w', ?r)"
    and calls: "map fst (save_calls w') = map fst (save_calls w) @ ?bs @ [?r]"
    by blast
  from run show "map_option snd (YouTubeCommentsTool_run w vid) = Some ?r" by simp
  from calls have "length (map fst (save_calls w')) = length (map fst (save_calls w) @ ?bs @ [?r])"
    by (simp only:)
  with run show "map_option (length \<circ> save_calls \<circ> fst) (YouTubeCommentsTool_run w vid)
           = Some (length (save_calls w) + length ?bs + 1)"
    by simp
  from calls have "map length (map fst (save_calls w'))
      = map length (map fst (save_calls w) @ ?bs @ [?r])"
    by (simp only:)
  with run show "map_option (map (length \<circ> fst) \<circ> save_calls \<circ> fst) (YouTubeCommentsTool_run w vid)
           = Some (map (length \<circ> fst) (save_calls w) @ map length ?bs @ [length ?r])"
    by simp
qed

text \<open>
  Claim C1, as amended. When the API key is set and the server answers with a sequence of
  pages of at most 100 items each, of which exactly the last carries no continuation
  token, the run returns (the fetch loop terminates), and the number \<open>n\<close> of calls to
  \<open>save_comments\<close> made during the run is one more than the number of flushes inside
  the loop: \<open>1 \<le> n\<close> and \<open>100 (n - 1) \<le> total items \<le> 199 (n - 1) + 99\<close>.
\<close>

theorem run_flush_count:
  assumes "api_key_env w = Some k" and "k \<noteq> []"
    and "serves (responses w) (length (requests w)) ps" and "paged ps"
    and "list_all (\<lambda>p. length (fst p) \<le> 100) ps"
  shows "\<exists>w' r n. YouTubeCommentsTool_run w vid = Some (w', r)
    \<and> length (save_calls w') = length (save_calls w) + n
    \<and> 1 \<le> n
    \<and> 100 * (n - 1) \<le> length (concat (map fst ps))
    \<and> length (concat (map fst ps)) \<le> 199 * (n - 1) + 99"
proof -
  let ?bs = "flushed [] (map fst ps)" and ?r = "unflushed [] (map fst ps)"
  from run_paged_facts [OF assms(1-4), of vid] obtain w' where
    run: "YouTubeCommentsTool_run w vid = Some (w', ?r)"
    and calls: "map fst (save_calls w') = map fst (save_calls w) @ ?bs @ [?r]"
    by blast
  from calls have "length (map fst (save_calls w')) = length (map fst (save_calls w) @ ?bs @ [?r])"
    by (simp only:)
  then have n: "length (save_calls w') = length (save_calls w) + (length ?bs + 1)"
    by simp
  have "length (concat ?bs @ ?r) = length ([] @ concat (map fst ps))"
    by (simp only: flushed_unflushed_concat)
  then have total: "length (concat (map fst ps)) = length (concat ?bs) + length ?r"
    by simp
  have lo: "100 * length ?bs \<le> length (concat ?bs)"
    by (rule concat_length_lower) (simp add: flushed_at_least)
  from assms(5) have "\<forall>p\<in>set (map fst ps). length p \<le> 100"
    by (simp add: list_all_iff)
  then have "\<forall>b\<in>set ?bs. length b \<le> 199"
    using flushed_at_most [of "[]" "map fst ps"] by simp
  then have hi: "length (concat ?bs) \<le> 199 * length ?bs"
    by (rule concat_length_upper)
  have r: "length ?r < 100"
    by (rule unflushed_short) simp
  from lo hi r total have "100 * (length ?bs + 1 - 1) \<le> length (concat (map fst ps))"
    and "length (concat (map fst ps)) \<le> 199 * (length ?bs + 1 - 1) + 99"
    by simp_all
  with run n show ?thesis by (intro exI [of _ w'] exI [of _ ?r] exI [of _ "length ?bs + 1"]) simp
qed

theorem run_flush_count_witness:
  "api_key_env (example_world\<lparr>responses := script example_pages\<rparr>) = Some ''KEY'' \<and> ''KEY'' \<noteq> []
   \<and> serves (responses (example_world\<lparr>responses := script example_pages\<rparr>))
        (length (requests (example_world\<lparr>responses := script example_pages\<rparr>))) example_pages
   \<and> paged example_pages \<and> list_all (\<lambda>p. length (fst p) \<le> 100) example_pages
   \<and> (\<exists>w' r n. YouTubeCommentsTool_run (example_world\<lparr>responses := script example_pages\<rparr>)
                    ''dQw4w9WgXcQ'' = Some (w', r)
        \<and> length (save_calls w')
            = length (save_calls (example_world\<lparr>responses := script example_pages\<rparr>)) + n
        \<and> 1 \<le> n
        \<and> 100 * (n - 1) \<le> length (concat (map fst example_pages))
        \<and> length (concat (map fst example_pages)) \<le> 199 * (n - 1) + 99)"
proof -
  have h2: "''KEY'' \<noteq> []" by simp
  have h5: "list_all (\<lambda>p. length (fst p) \<le> 100) example_pages"
    by (simp add: example_pages_def)
  from run_flush_count [OF example_world_key h2 example_world_serves example_pages_paged h5,
      of "''dQw4w9WgXcQ''"]
    example_world_key h2 example_world_serves example_pages_paged h5
  show ?thesis by blast
qed

text \<open>
  Claim C1, as stated, fails. A single page without items makes one call to
  \<open>save_comments\<close> (the flush after the loop is unconditional), where the claim counts
  \<open>ceil (0 / 100) = 0\<close>; a single page of 100 items makes two calls (one inside the loop,
  one after it), where the claim counts \<open>ceil (100 / 100) = 1\<close>.
\<close>

theorem run_flush_count_counterexample:
  "map_option (length \<circ> save_calls \<circ> fst)
     (YouTubeCommentsTool_run (example_world\<lparr>responses := script [([], None)]\<rparr>) ''dQw4w9WgXcQ'')
     = Some 1
   \<and> (length (concat (map fst [([] :: comment list, None :: string option)])) + 99) div 100 = 0
   \<and> map_option (length \<circ> save_calls \<circ> fst)
     (YouTubeCommentsTool_run
        (example_world\<lparr>responses := script [(replicate 100 example_comment, None)]\<rparr>) ''dQw4w9WgXcQ'')
     = Some 2
   \<and> (length (concat (map fst [(replicate 100 example_comment, None :: string option)])) + 99)
        div 100 = 1"
proof -
  have k: "''KEY'' \<noteq> []" by simp
  have sc: "save_calls (example_world\<lparr>responses := srv\<rparr>) = []" for srv
    by (simp add: example_world_def)
  have ea: "length (save_calls (example_world\<lparr>responses := script [([], None)]\<rparr>))
      + length (flushed [] (map fst [([] :: comment list, None :: string option)])) + 1 = 1"
    by (simp add: sc)
  have eb: "length (save_calls
        (example_world\<lparr>responses := script [(replicate 100 example_comment, None)]\<rparr>))
      + length (flushed [] (map fst [(replicate 100 example_comment, None :: string option)])) + 1
      = 2"
    by (simp add: sc)
  have a: "map_option (length \<circ> save_calls \<circ> fst)
     (YouTubeCommentsTool_run (example_world\<lparr>responses := script [([], None)]\<rparr>) ''dQw4w9WgXcQ'')
     = Some 1"
    using run_paged_observations(2)
      [OF example_world_key k single_page_serves single_page_paged, of "[]" "''dQw4w9WgXcQ''"]
    unfolding ea .
  have b: "map_option (length \<circ> save_calls \<circ> fst)
     (YouTubeCommentsTool_run
        (example_world\<lparr>responses := script [(replicate 100 example_comment, None)]\<rparr>) ''dQw4w9WgXcQ'')
     = Some 2"
    using run_paged_observations(2)
      [OF example_world_key k single_page_serves single_page_paged,
        of "replicate 100 example_comment" "''dQw4w9WgXcQ''"]
    unfolding eb .
  have c: "(length (concat (map fst [([] :: comment list, None :: string option)])) + 99) div 100
      = 0"
    by simp
  have d: "(length (concat (map fst [(replicate 100 example_comment, None :: string option)])) + 99)
        div 100 = 1"
    by simp
  from a c b d show ?thesis by (intro conjI)
qed

section \<open>The size of the batches and the returned list\<close>

lemma fetch_loop_batches:
  assumes ret: "fetch_loop vid k w cs tok t = Some y"
    and ok: "page_sizes_ok (responses w)" and short: "length cs < 100"
  shows "\<exists>bs. map fst (save_calls (fst y)) = map fst (save_calls w) @ bs
           \<and> list_all (\<lambda>b. 100 \<le> length b \<and> length b \<le> 199) bs
           \<and> (\<forall>cs' t'. snd y = Inr (cs', t') \<longrightarrow> length cs' < 100)"
proof -
  let ?P = "\<lambda>(vid :: string) (k :: string) w (cs :: comment list) (tok :: string option)
      (t :: int) y.
      page_sizes_ok (responses w) \<longrightarrow> length cs < 100 \<longrightarrow>
      (\<exists>bs. map fst (save_calls (fst y)) = map fst (save_calls w) @ bs
           \<and> list_all (\<lambda>b. 100 \<le> length b \<and> length b \<le> 199) bs
           \<and> (\<forall>cs' t'. snd y = Inr (cs', t') \<longrightarrow> length cs' < 100))"
  have "?P vid k w cs tok t y"
  proof (rule fetch_loop.raw_induct [where P = ?P, OF _ ret])
    fix f :: "string \<Rightarrow> string \<Rightarrow> world \<Rightarrow> comment list \<Rightarrow> string option \<Rightarrow> int
        \<Rightarrow> (world \<times> (exn + comment list \<times> int)) option"
    fix vid k w cs tok t y
    assume IH: "\<And>a1 a2 a3 a4 a5 a6 z. f a1 a2 a3 a4 a5 a6 = Some z \<Longrightarrow> ?P a1 a2 a3 a4 a5 a6 z"
      and body: "(let w1 = send_request w (request_params vid k tok)
          in case responses w (length (requests w)) of
               Raises e \<Rightarrow> Some (w1, Inl e)
             | Data items tok \<Rightarrow>
                 (case process_page vid w1 cs t items of
                    (w2, comments2, total2) \<Rightarrow>
                      if falsy tok then Some (w2, Inr (comments2, total2))
                      else f vid k w2 comments2 tok total2)) = Some y"
    let ?w1 = "send_request w (request_params vid k tok)"
    show "?P vid k w cs tok t y"
    proof (intro impI)
      assume ok: "page_sizes_ok (responses w)" and short: "length cs < 100"
      show "\<exists>bs. map fst (save_calls (fst y)) = map fst (save_calls w) @ bs
           \<and> list_all (\<lambda>b. 100 \<le> length b \<and> length b \<le> 199) bs
           \<and> (\<forall>cs' t'. snd y = Inr (cs', t') \<longrightarrow> length cs' < 100)"
      proof (cases "responses w (length (requests w))")
        case (Raises e)
        with body have "y = (?w1, Inl e)" by (simp add: Let_def)
        then show ?thesis by simp
      next
        case (Data items tk)
        from ok have "case responses w (length (requests w)) of
            Raises e \<Rightarrow> True | Data items tok \<Rightarrow> length items \<le> 100"
          unfolding page_sizes_ok_def by (rule allE)
        with Data have items: "length items \<le> 100" by simp
        obtain w2 cs2 t2 where pp: "process_page vid ?w1 cs t items = (w2, cs2, t2)"
          by (cases "process_page vid ?w1 cs t items")
        note st = process_page_static [OF pp]
        define fl where "fl = (if 100 \<le> length (cs @ items) then [cs @ items] else [])"
        from st(6) have calls2: "map fst (save_calls w2) = map fst (save_calls w) @ fl"
          by (simp add: fl_def)
        from short items have bound: "list_all (\<lambda>b. 100 \<le> length b \<and> length b \<le> 199) fl"
          by (simp add: fl_def)
        from st(7) have short2: "length cs2 < 100" by simp
        show ?thesis
        proof (cases "falsy tk")
          case True
          with body Data pp have "y = (w2, Inr (cs2, t2))" by (simp add: Let_def)
          with calls2 bound short2 show ?thesis by auto
        next
          case False
          with body Data pp have "f vid k w2 cs2 tk t2 = Some y" by (simp add: Let_def)
          from IH [OF this] have "?P vid k w2 cs2 tk t2 y" .
          moreover from ok st(1) have "page_sizes_ok (responses w2)" by simp
          ultimately obtain bs where
            "map fst (save_calls (fst y)) = map fst (save_calls w2) @ bs"
            and "list_all (\<lambda>b. 100 \<le> length b \<and> length b \<le> 199) bs"
            and "\<forall>cs' t'. snd y = Inr (cs', t') \<longrightarrow> length cs' < 100"
            using short2 by blast
          with calls2 bound show ?thesis
            by (intro exI [of _ "fl @ bs"]) simp
        qed
      qed
    qed
  qed
  with ok short show ?thesis by blast
qed

lemma fetch_loop_prefix:
  assumes "serves (responses w) (length (requests w)) ps" and "continuing ps"
  shows "fetch_loop vid k w cs tok t =
           (case run_pages vid k ps w cs tok t of
              (w', cs', tok', t') \<Rightarrow> fetch_loop vid k w' cs' tok' t')"
  using assms
proof (induction ps arbitrary: w cs tok t)
  case Nil
  then show ?case by simp
next
  case (Cons p ps)
  obtain items tk where p: "p = (items, tk)" by (cases p)
  obtain w2 cs2 t2 where
    pp: "process_page vid (send_request w (request_params vid k tok)) cs t items = (w2, cs2, t2)"
    by (cases "process_page vid (send_request w (request_params vid k tok)) cs t items")
  note st = process_page_static [OF pp]
  from Cons.prems p have resp: "responses w (length (requests w)) = Data items tk"
    and srv: "serves (responses w) (Suc (length (requests w))) ps"
    and tk: "\<not> falsy tk" and cont: "continuing ps"
    by (simp_all add: continuing_def)
  from srv st have srv2: "serves (responses w2) (length (requests w2)) ps" by simp
  from Cons.IH [OF srv2 cont]
  have "fetch_loop vid k w2 cs2 tk t2 =
           (case run_pages vid k ps w2 cs2 tk t2 of
              (w', cs', tok', t') \<Rightarrow> fetch_loop vid k w' cs' tok' t')" .
  with resp pp tk show ?case
    by (subst fetch_loop.simps) (simp add: p Let_def)
qed

text \<open>
  Claim C3, as amended. In every run in which each page that the server sends holds at
  most 100 items, every batch passed to \<open>save_comments\<close> holds at most 199 records: a
  batch flushed inside the loop holds between 100 and 199 records, and the batch flushed
  after the loop, which is the returned list, fewer than 100.
  \<^item> Whenever \<open>_run\<close> returns, be it after the last page, after an exception in the
    loop or for want of an API key, the batches it has passed are some batches \<open>bs\<close> of
    100 to 199 records, followed, when the loop was left by its \<open>break\<close>, by the returned
    list.
  \<^item> While a run is under way, also one that never ends: after any pages \<open>ps\<close> that each
    carry a continuation token, the loop goes on from a state in which the batches passed
    so far hold 100 to 199 records and the pending batch fewer than 100.
  \<^item> When the server answers with a sequence of pages of which exactly the last carries
    no continuation token and the API key is set, \<open>_run\<close> returns, and the batches passed
    are the batches flushed inside the loop followed by the returned list.
\<close>

theorem run_batch_sizes:
  "(page_sizes_ok (responses w) \<longrightarrow> YouTubeCommentsTool_run w vid = Some (w', r) \<longrightarrow>
      (\<exists>bs fin. map fst (save_calls w') = map fst (save_calls w) @ bs @ fin
         \<and> list_all (\<lambda>b. 100 \<le> length b \<and> length b \<le> 199) bs
         \<and> (fin = [] \<or> fin = [r]) \<and> length r < 100))
   \<and> (serves (responses w) (length (requests w)) ps \<longrightarrow> continuing ps \<longrightarrow>
      list_all (\<lambda>p. length (fst p) \<le> 100) ps \<longrightarrow> length cs < 100 \<longrightarrow>
      (case run_pages vid k ps w cs tok t of
         (w1, cs1, tok1, t1) \<Rightarrow>
           fetch_loop vid k w cs tok t = fetch_loop vid k w1 cs1 tok1 t1
           \<and> (\<exists>bs. map fst (save_calls w1) = map fst (save_calls w) @ bs
                \<and> list_all (\<lambda>b. 100 \<le> length b \<and> length b \<le> 199) bs)
           \<and> length cs1 < 100))
   \<and> (api_key_env w = Some k \<longrightarrow> k \<noteq> [] \<longrightarrow>
      serves (responses w) (length (requests w)) ps \<longrightarrow> paged ps \<longrightarrow>
      list_all (\<lambda>p. length (fst p) \<le> 100) ps \<longrightarrow>
      (\<exists>w' r bs. YouTubeCommentsTool_run w vid = Some (w', r)
         \<and> map fst (save_calls w') = map fst (save_calls w) @ bs @ [r]
         \<and> list_all (\<lambda>b. 100 \<le> length b \<and> length b \<le> 199) bs
         \<and> length r < 100))"
proof (intro conjI impI)
  assume ok: "page_sizes_ok (responses w)"
    and run: "YouTubeCommentsTool_run w vid = Some (w', r)"
  let ?goal = "\<exists>bs fin. map fst (save_calls w') = map fst (save_calls w) @ bs @ fin
         \<and> list_all (\<lambda>b. 100 \<le> length b \<and> length b \<le> 199) bs
         \<and> (fin = [] \<or> fin = [r]) \<and> length r < 100"
  have nokey: ?goal
    if "YouTubeCommentsTool_run w vid
          = Some (log_error w ''YOUTUBE_API_KEY environment variable not set.'', [])"
  proof -
    from that run have "w' = log_error w ''YOUTUBE_API_KEY environment variable not set.''"
      and "r = []" by simp_all
    then have "map fst (save_calls w') = map fst (save_calls w) @ [] @ []" and "length r < 100"
      by simp_all
    then show ?thesis by (intro exI [of _ "[]"]) simp
  qed
  show ?goal
  proof (cases "api_key_env w")
    case None
    then show ?thesis by (intro nokey) (simp add: YouTubeCommentsTool_run_def)
  next
    case (Some key)
    show ?thesis
    proof (cases "key = []")
      case True
      with Some show ?thesis by (intro nokey) (simp add: YouTubeCommentsTool_run_def)
    next
      case False
      define w0 where "w0 = fst (get_current_comment_count (log_info w (''Using API Key: '' @ key)))"
      have g: "get_current_comment_count (log_info w (''Using API Key: '' @ key)) = (w0, 0)"
        by (simp add: w0_def get_current_comment_count_eq)
      have w0: "responses w0 = responses w" "save_calls w0 = save_calls w"
        by (simp_all add: w0_def get_current_comment_count_eq)
      from Some False g run obtain y where loop: "fetch_loop vid key w0 [] None 0 = Some y"
        by (cases "fetch_loop vid key w0 [] None 0") (simp_all add: YouTubeCommentsTool_run_def)
      from ok w0 have ok0: "page_sizes_ok (responses w0)" by simp
      from fetch_loop_batches [OF loop ok0] w0 obtain bs where
        calls: "map fst (save_calls (fst y)) = map fst (save_calls w) @ bs"
        and bound: "list_all (\<lambda>b. 100 \<le> length b \<and> length b \<le> 199) bs"
        and pend: "\<forall>cs' t'. snd y = Inr (cs', t') \<longrightarrow> length cs' < 100"
        by auto
      obtain w3 res where y: "y = (w3, res)" by (cases y)
      show ?thesis
      proof (cases res)
        case (Inl e)
        have "save_calls w' = save_calls w3 \<and> r = []"
        proof (cases e)
          case (RequestException m)
          with Some False g loop y Inl run show ?thesis
            by (auto simp: YouTubeCommentsTool_run_def)
        next
          case (Exception m)
          with Some False g loop y Inl run show ?thesis
            by (auto simp: YouTubeCommentsTool_run_def)
        qed
        with calls y bound show ?thesis
          by (intro exI [of _ bs] exI [of _ "[]"]) simp
      next
        case (Inr p)
        obtain cs' t' where p: "p = (cs', t')" by (cases p)
        obtain w4 t4 where sv: "save_comments w3 cs' t' vid = (w4, t4)"
          by (cases "save_comments w3 cs' t' vid")
        note st = save_comments_static [OF sv]
        from Some False g loop y Inr p sv run
        have "save_calls w' = save_calls w4 \<and> r = cs'"
          by (auto simp: YouTubeCommentsTool_run_def)
        then have "save_calls w' = save_calls w4" and r: "r = cs'"
          by simp_all
        with st(6) calls y have "map fst (save_calls w') = map fst (save_calls w) @ bs @ [r]"
          by simp
        moreover from pend y Inr p r have "length r < 100" by simp
        ultimately show ?thesis using bound
          by (intro exI [of _ bs] exI [of _ "[r]"]) simp
      qed
    qed
  qed
next
  assume srv: "serves (responses w) (length (requests w)) ps" and ct: "continuing ps"
    and sz: "list_all (\<lambda>p. length (fst p) \<le> 100) ps" and short: "length cs < 100"
  obtain w1 cs1 tok1 t1 where rp: "run_pages vid k ps w cs tok t = (w1, cs1, tok1, t1)"
    by (cases "run_pages vid k ps w cs tok t")
  from run_pages_static [OF rp]
  have calls: "map fst (save_calls w1) = map fst (save_calls w) @ flushed cs (map fst ps)"
    and pend: "cs1 = unflushed cs (map fst ps)"
    by simp_all
  from sz have "\<forall>p\<in>set (map fst ps). length p \<le> 100"
    by (simp add: list_all_iff)
  then have "\<forall>b\<in>set (flushed cs (map fst ps)). length b \<le> 199"
    using flushed_at_most [OF short, of "map fst ps"] by simp
  then have bound: "list_all (\<lambda>b. 100 \<le> length b \<and> length b \<le> 199) (flushed cs (map fst ps))"
    by (simp add: list_all_iff flushed_at_least)
  from pend short have "length cs1 < 100"
    by (simp add: unflushed_short)
  with fetch_loop_prefix [OF srv ct, of vid k cs tok t] rp calls bound
  show "case run_pages vid k ps w cs tok t of
         (w1, cs1, tok1, t1) \<Rightarrow>
           fetch_loop vid k w cs tok t = fetch_loop vid k w1 cs1 tok1 t1
           \<and> (\<exists>bs. map fst (save_calls w1) = map fst (save_calls w) @ bs
                \<and> list_all (\<lambda>b. 100 \<le> length b \<and> length b \<le> 199) bs)
           \<and> length cs1 < 100"
    by auto
next
  assume key: "api_key_env w = Some k" "k \<noteq> []"
    and srv: "serves (responses w) (length (requests w)) ps" and pg: "paged ps"
    and sz: "list_all (\<lambda>p. length (fst p) \<le> 100) ps"
  let ?bs = "flushed [] (map fst ps)" and ?r = "unflushed [] (map fst ps)"
  from run_paged_facts [OF key srv pg, of vid] obtain w' where
    run: "YouTubeCommentsTool_run w vid = Some (w', ?r)"
    and calls: "map fst (save_calls w') = map fst (save_calls w) @ ?bs @ [?r]"
    by blast
  from sz have "\<forall>p\<in>set (map fst ps). length p \<le> 100"
    by (simp add: list_all_iff)
  then have "\<forall>b\<in>set ?bs. length b \<le> 199"
    using flushed_at_most [of "[]" "map fst ps"] by simp
  then have sizes: "list_all (\<lambda>b. 100 \<le> length b \<and> length b \<le> 199) ?bs"
    by (simp add: list_all_iff flushed_at_least)
  have "length ?r < 100"
    by (rule unflushed_short) simp
  with run calls sizes
  show "\<exists>w' r bs. YouTubeCommentsTool_run w vid = Some (w', r)
         \<and> map fst (save_calls w') = map fst (save_calls w) @ bs @ [r]
         \<and> list_all (\<lambda>b. 100 \<le> length b \<and> length b \<le> 199) bs
         \<and> length r < 100"
    by blast
qed

theorem run_batch_sizes_witness:
  "page_sizes_ok (responses (example_world\<lparr>responses := script full_then_last\<rparr>))
   \<and> api_key_env (example_world\<lparr>responses := script full_then_last\<rparr>) = Some ''KEY''
   \<and> ''KEY'' \<noteq> []
   \<and> serves (responses (example_world\<lparr>responses := script full_then_last\<rparr>))
        (length (requests (example_world\<lparr>responses := script full_then_last\<rparr>)))
        full_then_last
   \<and> paged full_then_last
   \<and> list_all (\<lambda>p. length (fst p) \<le> 100) full_then_last
   \<and> serves (responses (example_world\<lparr>responses := script full_then_last\<rparr>))
        (length (requests (example_world\<lparr>responses := script full_then_last\<rparr>)))
        [(replicate 100 example_comment, Some ''CDIQAA'')]
   \<and> continuing [(replicate 100 example_comment, Some ''CDIQAA'')]
   \<and> list_all (\<lambda>p. length (fst p) \<le> 100) [(replicate 100 example_comment, Some ''CDIQAA'')]
   \<and> length ([] :: comment list) < 100
   \<and> (\<exists>w' r. YouTubeCommentsTool_run (example_world\<lparr>responses := script full_then_last\<rparr>)
                 ''dQw4w9WgXcQ'' = Some (w', r)
         \<and> map fst (save_calls w') = [replicate 100 example_comment, [example_comment]]
         \<and> (\<exists>bs fin. map fst (save_calls w')
                 = map fst (save_calls (example_world\<lparr>responses := script full_then_last\<rparr>))
                   @ bs @ fin
               \<and> list_all (\<lambda>b. 100 \<le> length b \<and> length b \<le> 199) bs
               \<and> (fin = [] \<or> fin = [r]) \<and> length r < 100
               \<and> bs \<noteq> []))
   \<and> (case run_pages ''dQw4w9WgXcQ'' ''KEY'' [(replicate 100 example_comment, Some ''CDIQAA'')]
              (example_world\<lparr>responses := script full_then_last\<rparr>) [] None 0 of
         (w1, cs1, tok1, t1) \<Rightarrow>
           fetch_loop ''dQw4w9WgXcQ'' ''KEY''
               (example_world\<lparr>responses := script full_then_last\<rparr>) [] None 0
             = fetch_loop ''dQw4w9WgXcQ'' ''KEY'' w1 cs1 tok1 t1
           \<and> (\<exists>bs. map fst (save_calls w1)
                 = map fst (save_calls (example_world\<lparr>responses := script full_then_last\<rparr>))
                   @ bs
                \<and> list_all (\<lambda>b. 100 \<le> length b \<and> length b \<le> 199) bs)
           \<and> length cs1 < 100)
   \<and> (\<exists>w' r bs. YouTubeCommentsTool_run (example_world\<lparr>responses := script full_then_last\<rparr>)
                    ''dQw4w9WgXcQ'' = Some (w', r)
         \<and> map fst (save_calls w')
             = map fst (save_calls (example_world\<lparr>responses := script full_then_last\<rparr>))
               @ bs @ [r]
         \<and> list_all (\<lambda>b. 100 \<le> length b \<and> length b \<le> 199) bs
         \<and> length r < 100)"
proof -
  let ?w = "example_world\<lparr>responses := script full_then_last\<rparr>"
  let ?p1 = "[(replicate 100 example_comment, Some ''CDIQAA'')]"
  have ok: "page_sizes_ok (responses ?w)"
    by (auto simp: page_sizes_ok_def example_world_def script_def full_then_last_def nth_Cons')
  have k: "''KEY'' \<noteq> []" by simp
  have srv: "serves (responses ?w) (length (requests ?w)) full_then_last"
    by (simp add: example_world_def full_then_last_def script_def)
  have pg: "paged full_then_last"
    by (simp add: paged_def continuing_def falsy_def full_then_last_def)
  have sz: "list_all (\<lambda>p. length (fst p) \<le> 100) full_then_last"
    by (simp add: full_then_last_def)
  have srv1: "serves (responses ?w) (length (requests ?w)) ?p1"
    by (simp add: example_world_def full_then_last_def script_def)
  have ct1: "continuing ?p1"
    by (simp add: continuing_def falsy_def)
  have sz1: "list_all (\<lambda>p. length (fst p) \<le> 100) ?p1"
    by simp
  have short: "length ([] :: comment list) < 100" by simp
  from run_paged_facts [OF example_world_key k srv pg, of "''dQw4w9WgXcQ''"]
  obtain w' where run: "YouTubeCommentsTool_run ?w ''dQw4w9WgXcQ''
        = Some (w', unflushed [] (map fst full_then_last))"
    and calls: "map fst (save_calls w') = map fst (save_calls ?w)
        @ flushed [] (map fst full_then_last) @ [unflushed [] (map fst full_then_last)]"
    by blast
  have calls': "map fst (save_calls w') = [replicate 100 example_comment, [example_comment]]"
    using calls by (simp add: example_world_def full_then_last_def)
  from run_batch_sizes [THEN conjunct1, rule_format, OF ok run]
  obtain bs fin where b1: "map fst (save_calls w') = map fst (save_calls ?w) @ bs @ fin"
    and b2: "list_all (\<lambda>b. 100 \<le> length b \<and> length b \<le> 199) bs"
    and b3: "fin = [] \<or> fin = [unflushed [] (map fst full_then_last)]"
    and b4: "length (unflushed [] (map fst full_then_last)) < 100"
    by blast
  from b1 calls' have "bs @ fin = [replicate 100 example_comment, [example_comment]]"
    by (simp add: example_world_def)
  then have "length (bs @ fin) = length [replicate 100 example_comment, [example_comment]]"
    by (simp only:)
  then have "length bs + length fin = 2"
    by simp
  with b3 have b5: "bs \<noteq> []" by auto
  let ?r = "unflushed [] (map fst full_then_last)"
  from b1 b2 b3 b4 b5
  have inner: "\<exists>bs fin. map fst (save_calls w') = map fst (save_calls ?w) @ bs @ fin
               \<and> list_all (\<lambda>b. 100 \<le> length b \<and> length b \<le> 199) bs
               \<and> (fin = [] \<or> fin = [?r]) \<and> length ?r < 100
               \<and> bs \<noteq> []"
    by (intro exI [of _ bs] exI [of _ fin] conjI)
  from run calls' inner
  have one: "\<exists>w' r. YouTubeCommentsTool_run ?w ''dQw4w9WgXcQ'' = Some (w', r)
         \<and> map fst (save_calls w') = [replicate 100 example_comment, [example_comment]]
         \<and> (\<exists>bs fin. map fst (save_calls w') = map fst (save_calls ?w) @ bs @ fin
               \<and> list_all (\<lambda>b. 100 \<le> length b \<and> length b \<le> 199) bs
               \<and> (fin = [] \<or> fin = [r]) \<and> length r < 100
               \<and> bs \<noteq> [])"
    by (intro exI [of _ w'] exI [of _ ?r] conjI)
  note two = run_batch_sizes [THEN conjunct2, THEN conjunct1, rule_format,
      OF srv1 ct1 sz1 short, where vid = "''dQw4w9WgXcQ''" and k = "''KEY''" and tok = None
        and t = 0]
  note three = run_batch_sizes [THEN conjunct2, THEN conjunct2, rule_format,
      OF example_world_key k srv pg sz, where vid = "''dQw4w9WgXcQ''"]
  from ok example_world_key k srv pg sz srv1 ct1 sz1 short one two three
  show ?thesis by (intro conjI)
qed

text \<open>
  Claim C3, as stated, fails. Two pages of 60 items each: after the first page the batch
  holds 60 records and is not flushed; after the second it holds 120 records, and these
  120 records are passed to \<open>save_comments\<close> (followed by the empty batch after the loop).
\<close>

theorem run_batch_sizes_counterexample:
  "map_option (map (length \<circ> fst) \<circ> save_calls \<circ> fst)
     (YouTubeCommentsTool_run
        (example_world\<lparr>responses :=
           script [(replicate 60 example_comment, Some ''CDIQAA''),
                   (replicate 60 example_comment, None)]\<rparr>) ''dQw4w9WgXcQ'')
     = Some [120, 0]"
proof -
  let ?ps = "[(replicate 60 example_comment, Some ''CDIQAA''),
              (replicate 60 example_comment, None :: string option)]"
  let ?w = "example_world\<lparr>responses := script ?ps\<rparr>"
  have k: "''KEY'' \<noteq> []" by simp
  have srv: "serves (responses ?w) (length (requests ?w)) ?ps"
    by (simp add: example_world_def script_def)
  have pg: "paged ?ps"
    by (simp add: paged_def continuing_def falsy_def)
  have e: "map (length \<circ> fst) (save_calls ?w) @ map length (flushed [] (map fst ?ps))
             @ [length (unflushed [] (map fst ?ps))] = [120, 0]"
    by (simp add: example_world_def)
  show ?thesis
    using run_paged_observations(3) [OF example_world_key k srv pg, of "''dQw4w9WgXcQ''"]
    unfolding e .
qed

text \<open>
  Claim C10, as amended. On a run that completes the fetch loop (API key set, every
  response a page, the last one without a continuation token), the returned list \<open>r\<close> is the
  batch accumulated since the most recent flush inside the loop: the batches \<open>bs\<close> flushed
  inside the loop followed by \<open>r\<close> are the fetched records in arrival order, so the
  records flushed earlier are not part of \<open>r\<close>, and \<open>r\<close> holds fewer than 100 records.
  With \<open>pending\<close> the batch held when the last page arrives, \<open>r\<close> is empty when \<open>pending\<close>
  together with the items of the last page reaches 100 records (the last page triggers a
  flush), and otherwise \<open>r\<close> is \<open>pending\<close> followed by the items of the last page.
\<close>

theorem run_returns_pending_batch:
  assumes "api_key_env w = Some k" and "k \<noteq> []"
    and "serves (responses w) (length (requests w)) ps" and "paged ps"
  shows "\<exists>w' r bs. YouTubeCommentsTool_run w vid = Some (w', r)
    \<and> map fst (save_calls w') = map fst (save_calls w) @ bs @ [r]
    \<and> list_all (\<lambda>b. 100 \<le> length b) bs
    \<and> concat bs @ r = concat (map fst ps)
    \<and> r = drop (length (concat bs)) (concat (map fst ps))
    \<and> length r < 100
    \<and> r = (let pending = unflushed [] (map fst (butlast ps));
                batch = pending @ fst (last ps)
            in if 100 \<le> length batch then [] else batch)"
proof -
  let ?bs = "flushed [] (map fst ps)" and ?r = "unflushed [] (map fst ps)"
  from run_paged_facts [OF assms, of vid] obtain w' where
    run: "YouTubeCommentsTool_run w vid = Some (w', ?r)"
    and calls: "map fst (save_calls w') = map fst (save_calls w) @ ?bs @ [?r]"
    by blast
  have sizes: "list_all (\<lambda>b. 100 \<le> length b) ?bs"
    by (simp add: list_all_iff flushed_at_least)
  have all: "concat ?bs @ ?r = concat (map fst ps)"
    using flushed_unflushed_concat [of "[]" "map fst ps"] by simp
  then have "drop (length (concat ?bs)) (concat ?bs @ ?r)
      = drop (length (concat ?bs)) (concat (map fst ps))"
    by (simp only:)
  then have suffix: "?r = drop (length (concat ?bs)) (concat (map fst ps))"
    by simp
  have short: "length ?r < 100"
    by (rule unflushed_short) simp
  from assms(4) have "ps \<noteq> []" by (simp add: paged_def)
  then have "map fst ps = map fst (butlast ps) @ [fst (last ps)]"
    by (metis append_butlast_last_id list.simps(8,9) map_append)
  then have "?r = unflushed [] (map fst (butlast ps) @ [fst (last ps)])"
    by (simp only:)
  then have lastp: "?r = (let pending = unflushed [] (map fst (butlast ps));
                batch = pending @ fst (last ps)
            in if 100 \<le> length batch then [] else batch)"
    by (simp only: unflushed_snoc Let_def)
  from run calls sizes all suffix short lastp show ?thesis by blast
qed

theorem run_returns_pending_batch_witness:
  "api_key_env (example_world\<lparr>responses := script example_pages\<rparr>) = Some ''KEY'' \<and> ''KEY'' \<noteq> []
   \<and> serves (responses (example_world\<lparr>responses := script example_pages\<rparr>))
        (length (requests (example_world\<lparr>responses := script example_pages\<rparr>))) example_pages
   \<and> paged example_pages
   \<and> (\<exists>w' r bs. YouTubeCommentsTool_run (example_world\<lparr>responses := script example_pages\<rparr>)
                    ''dQw4w9WgXcQ'' = Some (w', r)
        \<and> map fst (save_calls w')
            = map fst (save_calls (example_world\<lparr>responses := script example_pages\<rparr>)) @ bs @ [r]
        \<and> list_all (\<lambda>b. 100 \<le> length b) bs
        \<and> concat bs @ r = concat (map fst example_pages)
        \<and> r = drop (length (concat bs)) (concat (map fst example_pages))
        \<and> length r < 100
        \<and> r = (let pending = unflushed [] (map fst (butlast example_pages));
                    batch = pending @ fst (last example_pages)
                in if 100 \<le> length batch then [] else batch))"
proof -
  have h2: "''KEY'' \<noteq> []" by simp
  from run_returns_pending_batch [OF example_world_key h2 example_world_serves example_pages_paged,
      of "''dQw4w9WgXcQ''"]
    example_world_key h2 example_world_serves example_pages_paged
  show ?thesis by blast
qed

text \<open>
  Claim C10, as stated, fails in its last clause. With a single page of one record and no
  continuation token, the batch is empty when the last page arrives, yet the returned
  list is not empty: it holds the record of that page.
\<close>

theorem run_returns_pending_batch_counterexample:
  "unflushed [] (map fst (butlast [([example_comment], None :: string option)])) = []
   \<and> map_option snd
       (YouTubeCommentsTool_run (example_world\<lparr>responses := script [([example_comment], None)]\<rparr>)
          ''dQw4w9WgXcQ'')
       = Some [example_comment]"
proof -
  have k: "''KEY'' \<noteq> []" by simp
  have e: "unflushed [] (map fst [([example_comment], None :: string option)]) = [example_comment]"
    by simp
  have "map_option snd
       (YouTubeCommentsTool_run (example_world\<lparr>responses := script [([example_comment], None)]\<rparr>)
          ''dQw4w9WgXcQ'')
       = Some [example_comment]"
    using run_paged_observations(1)
      [OF example_world_key k single_page_serves single_page_paged,
        of "[example_comment]" "''dQw4w9WgXcQ''"]
    unfolding e .
  then show ?thesis by simp
qed

section \<open>Transport errors\<close>

lemma run_raises_observations:
  assumes "api_key_env w = Some k" and "k \<noteq> []"
    and "serves (responses w) (length (requests w)) ps" and "continuing ps"
    and "responses w (length (requests w) + length ps) = Raises (RequestException e)"
  shows "map_option snd (YouTubeCommentsTool_run w vid) = Some []"
    and "map_option (map (length \<circ> fst) \<circ> save_calls \<circ> fst) (YouTubeCommentsTool_run w vid)
           = Some (map (length \<circ> fst) (save_calls w) @ map length (flushed [] (map fst ps)))"
    and "no_faults w \<Longrightarrow>
         map_option (csv_header_count (csv_file_name vid (today w)) \<circ> fst)
           (YouTubeCommentsTool_run w vid)
           = Some (csv_header_count (csv_file_name vid (today w)) w
                   + (if flushed [] (map fst ps) \<noteq> [] then 1 else 0))"
proof -
  let ?bs = "flushed [] (map fst ps)"
  from run_raises_facts [OF assms, of vid] obtain w' where
    run: "YouTubeCommentsTool_run w vid = Some (w', [])"
    and calls: "map fst (save_calls w') = map fst (save_calls w) @ ?bs"
    and files: "no_faults w \<longrightarrow>
         file_content (csv_files w') (csv_file_name vid (today w))
           = file_content (csv_files w) (csv_file_name vid (today w))
             @ (if ?bs \<noteq> [] then [csv_header] else []) @ csv_rows 1 (concat ?bs)"
    by blast
  from run show "map_option snd (YouTubeCommentsTool_run w vid) = Some []" by simp
  from calls have "map length (map fst (save_calls w')) = map length (map fst (save_calls w) @ ?bs)"
    by (simp only:)
  with run show "map_option (map (length \<circ> fst) \<circ> save_calls \<circ> fst) (YouTubeCommentsTool_run w vid)
           = Some (map (length \<circ> fst) (save_calls w) @ map length ?bs)"
    by simp
  show "map_option (csv_header_count (csv_file_name vid (today w)) \<circ> fst)
           (YouTubeCommentsTool_run w vid)
           = Some (csv_header_count (csv_file_name vid (today w)) w
                   + (if ?bs \<noteq> [] then 1 else 0))" if "no_faults w"
    using that files run by (simp add: csv_header_count_def)
qed

text \<open>
  Claim C6, as amended. When a request of the fetch loop fails with a transport error
  (\<open>requests.get\<close> or \<open>raise_for_status\<close> raises a \<open>RequestException\<close>) after the
  pages \<open>ps\<close> have been received, \<open>_run\<close> returns normally, its result is the empty
  list, and the last log record is the error. Only the batches flushed inside the loop
  have been passed to \<open>save_comments\<close>; if no write failed, the three files hold exactly
  these batches after their former content, numbered from 1, and the records of the batch
  in flight are in none of them.
\<close>

theorem run_transport_failure:
  assumes "api_key_env w = Some k" and "k \<noteq> []"
    and "serves (responses w) (length (requests w)) ps" and "continuing ps"
    and "responses w (length (requests w) + length ps) = Raises (RequestException e)"
  shows "\<exists>w'. YouTubeCommentsTool_run w vid = Some (w', [])
    \<and> last (logged w') = (ERROR, ''An HTTP error occurred: '' @ e)
    \<and> map fst (save_calls w') = map fst (save_calls w) @ flushed [] (map fst ps)
    \<and> concat (flushed [] (map fst ps)) @ unflushed [] (map fst ps) = concat (map fst ps)
    \<and> (no_faults w \<longrightarrow>
         file_content (markdown_files w') (markdown_file_name vid (today w))
           = file_content (markdown_files w) (markdown_file_name vid (today w))
             @ md_text 1 (concat (flushed [] (map fst ps)))
       \<and> file_content (csv_files w') (csv_file_name vid (today w))
           = file_content (csv_files w) (csv_file_name vid (today w))
             @ (if flushed [] (map fst ps) \<noteq> [] then [csv_header] else [])
             @ csv_rows 1 (concat (flushed [] (map fst ps)))
       \<and> file_content (json_files w') (json_file_name vid (today w))
           = file_content (json_files w) (json_file_name vid (today w))
             @ flushed [] (map fst ps))"
proof -
  have "concat (flushed [] (map fst ps)) @ unflushed [] (map fst ps) = concat (map fst ps)"
    using flushed_unflushed_concat [of "[]" "map fst ps"] by simp
  with run_raises_facts [OF assms, of vid] show ?thesis by blast
qed

theorem run_transport_failure_witness:
  "api_key_env (example_world\<lparr>responses := script [([example_comment], Some ''CDIQAA'')]\<rparr>)
     = Some ''KEY'' \<and> ''KEY'' \<noteq> []
   \<and> serves (responses (example_world\<lparr>responses := script [([example_comment], Some ''CDIQAA'')]\<rparr>))
        (length (requests (example_world\<lparr>responses := script [([example_comment], Some ''CDIQAA'')]\<rparr>)))
        [([example_comment], Some ''CDIQAA'')]
   \<and> continuing [([example_comment], Some ''CDIQAA'')]
   \<and> responses (example_world\<lparr>responses := script [([example_comment], Some ''CDIQAA'')]\<rparr>)
        (length (requests (example_world\<lparr>responses := script [([example_comment], Some ''CDIQAA'')]\<rparr>))
         + length [([example_comment], Some ''CDIQAA'')])
       = Raises (RequestException ''connection refused'')
   \<and> no_faults (example_world\<lparr>responses := script [([example_comment], Some ''CDIQAA'')]\<rparr>)
   \<and> (\<exists>w'. YouTubeCommentsTool_run
               (example_world\<lparr>responses := script [([example_comment], Some ''CDIQAA'')]\<rparr>)
               ''dQw4w9WgXcQ'' = Some (w', [])
         \<and> last (logged w') = (ERROR, ''An HTTP error occurred: '' @ ''connection refused'')
         \<and> file_content (json_files w') (json_file_name ''dQw4w9WgXcQ'' ''20240101'') = [])"
proof -
  let ?ps = "[([example_comment], Some ''CDIQAA'')]"
  let ?w = "example_world\<lparr>responses := script ?ps\<rparr>"
  have h2: "''KEY'' \<noteq> []" by simp
  have h4: "continuing ?ps" by (simp add: continuing_def falsy_def)
  have h5: "responses ?w (length (requests ?w) + length ?ps)
      = Raises (RequestException ''connection refused'')"
    by (simp add: example_world_def script_def)
  have td: "today ?w = ''20240101''" and js: "json_files ?w = Map.empty"
    by (simp_all add: example_world_def)
  have fl: "flushed [] (map fst ?ps) = []" by simp
  from run_transport_failure [OF example_world_key h2 single_page_serves h4 h5, of "''dQw4w9WgXcQ''"]
  obtain w' where "YouTubeCommentsTool_run ?w ''dQw4w9WgXcQ'' = Some (w', [])"
    and "last (logged w') = (ERROR, ''An HTTP error occurred: '' @ ''connection refused'')"
    and "no_faults ?w \<longrightarrow>
           file_content (json_files w') (json_file_name ''dQw4w9WgXcQ'' (today ?w))
           = file_content (json_files ?w) (json_file_name ''dQw4w9WgXcQ'' (today ?w))
             @ flushed [] (map fst ?ps)"
    by blast
  with example_world_no_faults [of "script ?ps"]
  have "\<exists>w'. YouTubeCommentsTool_run ?w ''dQw4w9WgXcQ'' = Some (w', [])
         \<and> last (logged w') = (ERROR, ''An HTTP error occurred: '' @ ''connection refused'')
         \<and> file_content (json_files w') (json_file_name ''dQw4w9WgXcQ'' ''20240101'') = []"
    unfolding td js fl by (auto simp: file_content_def)
  with example_world_key h2 single_page_serves h4 h5 example_world_no_faults [of "script ?ps"]
  show ?thesis by blast
qed

text \<open>
  Claim C6, as stated, fails on the returned value. After one page of one record, followed
  by a transport error, the batch in flight holds that record and \<open>_run\<close> returns the
  empty list; after one page of 100 records, followed by a transport error, one batch of
  100 records has been flushed and \<open>_run\<close> returns the empty list as well.
\<close>

theorem run_transport_failure_counterexample:
  "unflushed [] (map fst [([example_comment], Some ''CDIQAA'')]) = [example_comment]
   \<and> map_option snd
       (YouTubeCommentsTool_run
          (example_world\<lparr>responses := script [([example_comment], Some ''CDIQAA'')]\<rparr>)
          ''dQw4w9WgXcQ'') = Some []
   \<and> map_option (map (length \<circ> fst) \<circ> save_calls \<circ> fst)
       (YouTubeCommentsTool_run
          (example_world\<lparr>responses := script [(replicate 100 example_comment, Some ''CDIQAA'')]\<rparr>)
          ''dQw4w9WgXcQ'') = Some [100]
   \<and> map_option snd
       (YouTubeCommentsTool_run
          (example_world\<lparr>responses := script [(replicate 100 example_comment, Some ''CDIQAA'')]\<rparr>)
          ''dQw4w9WgXcQ'') = Some []"
proof -
  have k: "''KEY'' \<noteq> []" by simp
  have ct: "continuing [(items, Some ''CDIQAA'')]" for items :: "comment list"
    by (simp add: continuing_def falsy_def)
  have er: "responses (example_world\<lparr>responses := script [(items, Some ''CDIQAA'')]\<rparr>)
      (length (requests (example_world\<lparr>responses := script [(items, Some ''CDIQAA'')]\<rparr>))
       + length [(items, Some ''CDIQAA'')])
      = Raises (RequestException ''connection refused'')" for items
    by (simp add: example_world_def script_def)
  note obs = run_raises_observations [OF example_world_key k single_page_serves ct er]
  have a: "unflushed [] (map fst [([example_comment], Some ''CDIQAA'')]) = [example_comment]"
    by simp
  have e: "map (length \<circ> fst)
        (save_calls (example_world\<lparr>responses :=
           script [(replicate 100 example_comment, Some ''CDIQAA'')]\<rparr>))
      @ map length (flushed [] (map fst [(replicate 100 example_comment, Some ''CDIQAA'')]))
      = [100]"
    by (simp add: example_world_def)
  have c: "map_option (map (length \<circ> fst) \<circ> save_calls \<circ> fst)
       (YouTubeCommentsTool_run
          (example_world\<lparr>responses := script [(replicate 100 example_comment, Some ''CDIQAA'')]\<rparr>)
          ''dQw4w9WgXcQ'') = Some [100]"
    using obs(2) [of "replicate 100 example_comment" "''dQw4w9WgXcQ''"] unfolding e .
  from a obs(1) [of "[example_comment]" "''dQw4w9WgXcQ''"] c
    obs(1) [of "replicate 100 example_comment" "''dQw4w9WgXcQ''"]
  show ?thesis by (intro conjI)
qed

section \<open>The header row of the CSV file\<close>

lemma save_comments_header_count:
  assumes "reaches_csv (write_faults w (length (save_calls w)))"
  shows "csv_header_count (csv_file_name vid (today w)) (fst (save_comments w cs s vid))
           = csv_header_count (csv_file_name vid (today w)) w + (if s = 0 then 1 else 0)"
proof (cases "write_faults w (length (save_calls w))")
  case None
  then show ?thesis
    by (simp add: save_comments_def Let_def write_markdown_def write_csv_def write_json_def
        csv_header_count_def)
next
  case (Some f)
  with assms obtain e where "f = JsonFails e" by (cases f) simp_all
  with Some show ?thesis
    by (simp add: save_comments_def Let_def write_markdown_def write_csv_def
        csv_header_count_def)
qed

text \<open>
  Claim C7, as amended. At a flush whose Markdown and CSV writes do not fail, the header
  row is written if and only if the start index passed to the flush is zero: the number of
  header rows of the CSV file grows by one when it is zero and stays as it is otherwise.
  In a run that completes the fetch loop (API key set, every response a page, the last one
  without a continuation token) and in which no write fails, the header row is written
  exactly once.
\<close>

theorem csv_header_written_once:
  "(reaches_csv (write_faults w (length (save_calls w))) \<longrightarrow>
      csv_header_count (csv_file_name vid (today w)) (fst (save_comments w cs s vid))
        = csv_header_count (csv_file_name vid (today w)) w + (if s = 0 then 1 else 0))
   \<and> (api_key_env w = Some k \<longrightarrow> k \<noteq> [] \<longrightarrow> serves (responses w) (length (requests w)) ps \<longrightarrow>
      paged ps \<longrightarrow> no_faults w \<longrightarrow>
      (\<exists>w' r. YouTubeCommentsTool_run w vid = Some (w', r)
         \<and> csv_header_count (csv_file_name vid (today w)) w'
             = csv_header_count (csv_file_name vid (today w)) w + 1))"
proof (intro conjI impI)
  assume "reaches_csv (write_faults w (length (save_calls w)))"
  then show "csv_header_count (csv_file_name vid (today w)) (fst (save_comments w cs s vid))
        = csv_header_count (csv_file_name vid (today w)) w + (if s = 0 then 1 else 0)"
    by (rule save_comments_header_count)
next
  assume key: "api_key_env w = Some k" "k \<noteq> []"
    and srv: "serves (responses w) (length (requests w)) ps" and pg: "paged ps"
    and nf: "no_faults w"
  from run_paged_facts [OF key srv pg, of vid] nf obtain w' where
    run: "YouTubeCommentsTool_run w vid = Some (w', unflushed [] (map fst ps))"
    and csv: "file_content (csv_files w') (csv_file_name vid (today w))
           = file_content (csv_files w) (csv_file_name vid (today w))
             @ csv_header # csv_rows 1 (concat (map fst ps))"
    by blast
  from csv have "csv_header_count (csv_file_name vid (today w)) w'
             = csv_header_count (csv_file_name vid (today w)) w + 1"
    by (simp add: csv_header_count_def)
  with run show "\<exists>w' r. YouTubeCommentsTool_run w vid = Some (w', r)
         \<and> csv_header_count (csv_file_name vid (today w)) w'
             = csv_header_count (csv_file_name vid (today w)) w + 1"
    by blast
qed

theorem csv_header_written_once_witness:
  "reaches_csv (write_faults (example_world\<lparr>responses := script example_pages\<rparr>)
      (length (save_calls (example_world\<lparr>responses := script example_pages\<rparr>))))
   \<and> csv_header_count (csv_file_name ''dQw4w9WgXcQ'' ''20240101'')
        (fst (save_comments (example_world\<lparr>responses := script example_pages\<rparr>)
                [example_comment] 0 ''dQw4w9WgXcQ'')) = 1
   \<and> csv_header_count (csv_file_name ''dQw4w9WgXcQ'' ''20240101'')
        (fst (save_comments (example_world\<lparr>responses := script example_pages\<rparr>)
                [example_comment] 1 ''dQw4w9WgXcQ'')) = 0
   \<and> api_key_env (example_world\<lparr>responses := script example_pages\<rparr>) = Some ''KEY'' \<and> ''KEY'' \<noteq> []
   \<and> serves (responses (example_world\<lparr>responses := script example_pages\<rparr>))
        (length (requests (example_world\<lparr>responses := script example_pages\<rparr>))) example_pages
   \<and> paged example_pages
   \<and> no_faults (example_world\<lparr>responses := script example_pages\<rparr>)
   \<and> (\<exists>w' r. YouTubeCommentsTool_run (example_world\<lparr>responses := script example_pages\<rparr>)
                  ''dQw4w9WgXcQ'' = Some (w', r)
         \<and> csv_header_count (csv_file_name ''dQw4w9WgXcQ'' ''20240101'') w' = 1)"
proof -
  let ?w = "example_world\<lparr>responses := script example_pages\<rparr>"
  have h1: "reaches_csv (write_faults ?w (length (save_calls ?w)))"
    by (simp add: example_world_def no_fault_def)
  have h2: "''KEY'' \<noteq> []" by simp
  have td: "today ?w = ''20240101''"
    by (simp add: example_world_def)
  have c0: "csv_header_count (csv_file_name ''dQw4w9WgXcQ'' ''20240101'') ?w = 0"
    by (simp add: csv_header_count_def file_content_def example_world_def)
  note inst = csv_header_written_once [of ?w "''dQw4w9WgXcQ''" _ _ "''KEY''" example_pages]
  from inst [of "[example_comment]" 0] h1
  have a: "csv_header_count (csv_file_name ''dQw4w9WgXcQ'' ''20240101'')
        (fst (save_comments ?w [example_comment] 0 ''dQw4w9WgXcQ'')) = 1"
    unfolding td c0 by simp
  from inst [of "[example_comment]" 1] h1
  have b: "csv_header_count (csv_file_name ''dQw4w9WgXcQ'' ''20240101'')
        (fst (save_comments ?w [example_comment] 1 ''dQw4w9WgXcQ'')) = 0"
    unfolding td c0 by simp
  from inst [of "[example_comment]" 0] example_world_key h2 example_world_serves
    example_pages_paged example_world_no_faults [of "script example_pages"]
  have c: "\<exists>w' r. YouTubeCommentsTool_run ?w ''dQw4w9WgXcQ'' = Some (w', r)
         \<and> csv_header_count (csv_file_name ''dQw4w9WgXcQ'' ''20240101'') w' = 1"
    unfolding td c0 by simp
  from h1 a b example_world_key h2 example_world_serves example_pages_paged
    example_world_no_faults [of "script example_pages"] c
  show ?thesis by (intro conjI)
qed

text \<open>
  Claim C7, as stated, fails. A run whose first request fails with a transport error
  never calls \<open>save_comments\<close>, and the CSV file has no header row afterwards: the header
  is written zero times in that run. A run over one page of 100 records in which the JSON
  write fails writes the header twice: the flush inside the loop writes the header and
  the rows and then fails, so it returns the start index 0, and the flush after the loop,
  called with 0 again, writes the header once more.
\<close>

theorem csv_header_written_once_counterexample:
  "csv_header_count (csv_file_name ''dQw4w9WgXcQ'' ''20240101'') example_world = 0
   \<and> map_option (csv_header_count (csv_file_name ''dQw4w9WgXcQ'' ''20240101'') \<circ> fst)
       (YouTubeCommentsTool_run example_world ''dQw4w9WgXcQ'') = Some 0
   \<and> map_option (csv_header_count (csv_file_name ''dQw4w9WgXcQ'' ''20240101'') \<circ> fst)
       (YouTubeCommentsTool_run
          (example_world\<lparr>responses := script [(replicate 100 example_comment, None)],
                           write_faults := json_fault\<rparr>) ''dQw4w9WgXcQ'') = Some 2"
proof -
  have key: "api_key_env example_world = Some ''KEY''" and k: "''KEY'' \<noteq> []"
    and srv: "serves (responses example_world) (length (requests example_world)) []"
    and ct: "continuing []"
    and er: "responses example_world (length (requests example_world) + length ([] :: page list))
          = Raises (RequestException ''connection refused'')"
    and nf: "no_faults example_world"
    and td: "today example_world = ''20240101''"
    by (simp_all add: example_world_def script_def continuing_def no_faults_def no_fault_def)
  have c0: "csv_header_count (csv_file_name ''dQw4w9WgXcQ'' ''20240101'') example_world = 0"
    by (simp add: csv_header_count_def file_content_def example_world_def)
  have e: "csv_header_count (csv_file_name ''dQw4w9WgXcQ'' ''20240101'') example_world
      + (if flushed [] (map fst ([] :: page list)) \<noteq> [] then 1 else 0) = 0"
    by (simp add: c0)
  have none: "map_option (csv_header_count (csv_file_name ''dQw4w9WgXcQ'' ''20240101'') \<circ> fst)
       (YouTubeCommentsTool_run example_world ''dQw4w9WgXcQ'') = Some 0"
    using run_raises_observations(3) [OF key k srv ct er nf, of "''dQw4w9WgXcQ''"]
    unfolding td e .
  let ?ps = "[(replicate 100 example_comment, None :: string option)]"
  let ?w = "example_world\<lparr>responses := script ?ps, write_faults := json_fault\<rparr>"
  have key2: "api_key_env ?w = Some ''KEY''"
    and srv2: "serves (responses ?w) (length (requests ?w)) ?ps"
    by (simp_all add: example_world_def script_def)
  have twice: "map_option (csv_header_count (csv_file_name ''dQw4w9WgXcQ'' ''20240101'') \<circ> fst)
       (YouTubeCommentsTool_run ?w ''dQw4w9WgXcQ'') = Some 2"
    unfolding run_as_run_pages [OF key2 k srv2 single_page_paged]
    by (simp add: get_current_comment_count_eq example_world_def process_page_def
        save_comments_def Let_def json_fault_def write_markdown_def write_csv_def
        csv_header_count_def send_request_def log_info_def log_error_def file_content_def
        append_file_def)
  from c0 none twice show ?thesis by (intro conjI)
qed

section \<open>The running total and the numbers written\<close>

lemma enumerate_from_zip:
  "enumerate_from s xs = zip [s..s + int (length xs) - 1] xs"
proof (induction xs arbitrary: s)
  case Nil
  then show ?case by simp
next
  case (Cons x xs)
  have "[s..s + int (length (x # xs)) - 1] = s # [s + 1..s + 1 + int (length xs) - 1]"
    by (subst upto_rec1) (simp_all add: algebra_simps)
  with Cons.IH [of "s + 1"] show ?case by simp
qed

lemma md_text_explicit:
  "md_text (s + 1) cs =
     concat (map (\<lambda>(i, c). str_int i @ ''. **'' @ author c @ ''**: '' @ comment_text c
                    @ '' (Published at: '' @ published_at c @ '')'' @ [CHR 0x0A])
               (zip [s + 1..s + int (length cs)] cs))"
  by (simp add: md_text_def md_line_def newline_def enumerate_from_zip)

lemma csv_rows_explicit:
  "csv_rows (s + 1) cs =
     map (\<lambda>(i, c). [IntCell i, StrCell (author c), StrCell (comment_text c),
                    StrCell (published_at c)])
       (zip [s + 1..s + int (length cs)] cs)"
  by (simp add: csv_rows_def csv_row_def enumerate_from_zip)

text \<open>
  Claim C8. A flush none of whose writes fails returns the start index plus the batch
  size. It appends to the file \<open>comments_<id>_<date>.md\<close> one line
  \<open>i. **author**: text (Published at: date)\<close> for each record, and to the file
  \<open>comments_<id>_<date>.csv\<close> one row \<open>i, author, text, date\<close> for each record (after
  the header row when the start index is 0), where \<open>i\<close> runs through the integers from
  the start index plus one in the order of the records. Two consecutive flushes of 100 and
  37 records, the first with start index 0, return 100 and then 137, and the lines and rows
  they append carry the numbers 1, ..., 137. The numbers are written in decimal: a flush
  of two records with start index 0 into an empty directory leaves exactly the two lines
  and the three rows given below.
\<close>

theorem save_comments_running_total:
  "(write_faults w (length (save_calls w)) = None \<longrightarrow>
      snd (save_comments w cs s vid) = s + int (length cs)
      \<and> file_content (markdown_files (fst (save_comments w cs s vid)))
            (''comments_'' @ vid @ ''_'' @ today w @ ''.md'')
          = file_content (markdown_files w) (''comments_'' @ vid @ ''_'' @ today w @ ''.md'')
            @ concat (map (\<lambda>(i, c). str_int i @ ''. **'' @ author c @ ''**: '' @ comment_text c
                             @ '' (Published at: '' @ published_at c @ '')'' @ [CHR 0x0A])
                        (zip [s + 1..s + int (length cs)] cs))
      \<and> file_content (csv_files (fst (save_comments w cs s vid)))
            (''comments_'' @ vid @ ''_'' @ today w @ ''.csv'')
          = file_content (csv_files w) (''comments_'' @ vid @ ''_'' @ today w @ ''.csv'')
            @ (if s = 0
               then [[StrCell ''Index'', StrCell ''Author'', StrCell ''Comment'',
                      StrCell ''Published At'']]
               else [])
            @ map (\<lambda>(i, c). [IntCell i, StrCell (author c), StrCell (comment_text c),
                             StrCell (published_at c)])
                (zip [s + 1..s + int (length cs)] cs))
   \<and> (length c1 = 100 \<longrightarrow> length c2 = 37 \<longrightarrow>
      write_faults w (length (save_calls w)) = None \<longrightarrow>
      write_faults w (Suc (length (save_calls w))) = None \<longrightarrow>
      (case save_comments w c1 0 vid of
         (w1, t1) \<Rightarrow>
           (case save_comments w1 c2 t1 vid of
              (w2, t2) \<Rightarrow>
                t1 = 100 \<and> t2 = 137
                \<and> file_content (markdown_files w2) (''comments_'' @ vid @ ''_'' @ today w @ ''.md'')
                    = file_content (markdown_files w)
                        (''comments_'' @ vid @ ''_'' @ today w @ ''.md'')
                      @ concat (map (\<lambda>(i, c). str_int i @ ''. **'' @ author c @ ''**: ''
                                       @ comment_text c @ '' (Published at: '' @ published_at c
                                       @ '')'' @ [CHR 0x0A])
                                  (zip [1..137] (c1 @ c2)))
                \<and> file_content (csv_files w2) (''comments_'' @ vid @ ''_'' @ today w @ ''.csv'')
                    = file_content (csv_files w)
                        (''comments_'' @ vid @ ''_'' @ today w @ ''.csv'')
                      @ [StrCell ''Index'', StrCell ''Author'', StrCell ''Comment'',
                         StrCell ''Published At'']
                      # map (\<lambda>(i, c). [IntCell i, StrCell (author c), StrCell (comment_text c),
                                       StrCell (published_at c)])
                          (zip [1..137] (c1 @ c2)))))
   \<and> str_int 1 = ''1'' \<and> str_int 100 = ''100'' \<and> str_int 137 = ''137''
   \<and> file_content
         (markdown_files
            (fst (save_comments example_world
                    [\<lparr>author = ''ada'', comment_text = ''first'', published_at = ''2024''\<rparr>,
                     \<lparr>author = ''bob'', comment_text = ''second'', published_at = ''2025''\<rparr>]
                    0 ''dQw4w9WgXcQ'')))
         ''comments_dQw4w9WgXcQ_20240101.md''
       = ''1. **ada**: first (Published at: 2024)'' @ [CHR 0x0A]
         @ ''2. **bob**: second (Published at: 2025)'' @ [CHR 0x0A]
   \<and> file_content
         (csv_files
            (fst (save_comments example_world
                    [\<lparr>author = ''ada'', comment_text = ''first'', published_at = ''2024''\<rparr>,
                     \<lparr>author = ''bob'', comment_text = ''second'', published_at = ''2025''\<rparr>]
                    0 ''dQw4w9WgXcQ'')))
         ''comments_dQw4w9WgXcQ_20240101.csv''
       = [[StrCell ''Index'', StrCell ''Author'', StrCell ''Comment'', StrCell ''Published At''],
          [IntCell 1, StrCell ''ada'', StrCell ''first'', StrCell ''2024''],
          [IntCell 2, StrCell ''bob'', StrCell ''second'', StrCell ''2025'']]"
proof (intro conjI impI)
  assume nf: "write_faults w (length (save_calls w)) = None"
  obtain w' s' where sv: "save_comments w cs s vid = (w', s')"
    by (cases "save_comments w cs s vid")
  note ok = save_comments_ok [OF nf sv]
  from ok(1) sv show "snd (save_comments w cs s vid) = s + int (length cs)"
    by simp
  from ok(3) sv
  show "file_content (markdown_files (fst (save_comments w cs s vid)))
            (''comments_'' @ vid @ ''_'' @ today w @ ''.md'')
          = file_content (markdown_files w) (''comments_'' @ vid @ ''_'' @ today w @ ''.md'')
            @ concat (map (\<lambda>(i, c). str_int i @ ''. **'' @ author c @ ''**: '' @ comment_text c
                             @ '' (Published at: '' @ published_at c @ '')'' @ [CHR 0x0A])
                        (zip [s + 1..s + int (length cs)] cs))"
    by (simp add: markdown_file_name_def md_text_explicit)
  from ok(4) sv
  show "file_content (csv_files (fst (save_comments w cs s vid)))
            (''comments_'' @ vid @ ''_'' @ today w @ ''.csv'')
          = file_content (csv_files w) (''comments_'' @ vid @ ''_'' @ today w @ ''.csv'')
            @ (if s = 0
               then [[StrCell ''Index'', StrCell ''Author'', StrCell ''Comment'',
                      StrCell ''Published At'']]
               else [])
            @ map (\<lambda>(i, c). [IntCell i, StrCell (author c), StrCell (comment_text c),
                             StrCell (published_at c)])
                (zip [s + 1..s + int (length cs)] cs)"
    by (simp add: csv_file_name_def csv_rows_explicit csv_header_def)
next
  assume l1: "length c1 = 100" and l2: "length c2 = 37"
    and f1: "write_faults w (length (save_calls w)) = None"
    and f2: "write_faults w (Suc (length (save_calls w))) = None"
  obtain w1 t1 where sv1: "save_comments w c1 0 vid = (w1, t1)"
    by (cases "save_comments w c1 0 vid")
  obtain w2 t2 where sv2: "save_comments w1 c2 t1 vid = (w2, t2)"
    by (cases "save_comments w1 c2 t1 vid")
  note ok1 = save_comments_ok [OF f1 sv1]
  note st1 = save_comments_static [OF sv1]
  from f2 st1 have f2': "write_faults w1 (length (save_calls w1)) = None" by simp
  note ok2 = save_comments_ok [OF f2' sv2]
  from ok1(1) l1 have t1: "t1 = 100" by simp
  from ok2(1) l2 t1 have t2: "t2 = 137" by simp
  have all: "int (length (c1 @ c2)) = 137" using l1 l2 by simp
  have "file_content (markdown_files w2) (markdown_file_name vid (today w))
      = file_content (markdown_files w) (markdown_file_name vid (today w)) @ md_text (0 + 1) (c1 @ c2)"
    using ok1(3) ok2(3) st1(3) t1 l1 md_text_append [of 1 c1 c2] by simp
  then have md: "file_content (markdown_files w2) (''comments_'' @ vid @ ''_'' @ today w @ ''.md'')
      = file_content (markdown_files w) (''comments_'' @ vid @ ''_'' @ today w @ ''.md'')
        @ concat (map (\<lambda>(i, c). str_int i @ ''. **'' @ author c @ ''**: ''
                         @ comment_text c @ '' (Published at: '' @ published_at c
                         @ '')'' @ [CHR 0x0A])
                    (zip [1..137] (c1 @ c2)))"
    unfolding md_text_explicit all by (simp add: markdown_file_name_def)
  have "file_content (csv_files w2) (csv_file_name vid (today w))
      = file_content (csv_files w) (csv_file_name vid (today w))
        @ csv_header # csv_rows (0 + 1) (c1 @ c2)"
    using ok1(4) ok2(4) st1(3) t1 l1 csv_rows_append [of 1 c1 c2] by simp
  then have csv: "file_content (csv_files w2) (''comments_'' @ vid @ ''_'' @ today w @ ''.csv'')
      = file_content (csv_files w) (''comments_'' @ vid @ ''_'' @ today w @ ''.csv'')
        @ [StrCell ''Index'', StrCell ''Author'', StrCell ''Comment'', StrCell ''Published At'']
        # map (\<lambda>(i, c). [IntCell i, StrCell (author c), StrCell (comment_text c),
                         StrCell (published_at c)])
            (zip [1..137] (c1 @ c2))"
    unfolding csv_rows_explicit all by (simp add: csv_file_name_def csv_header_def)
  from t1 t2 md csv sv1 sv2
  show "case save_comments w c1 0 vid of
         (w1, t1) \<Rightarrow>
           (case save_comments w1 c2 t1 vid of
              (w2, t2) \<Rightarrow>
                t1 = 100 \<and> t2 = 137
                \<and> file_content (markdown_files w2) (''comments_'' @ vid @ ''_'' @ today w @ ''.md'')
                    = file_content (markdown_files w)
                        (''comments_'' @ vid @ ''_'' @ today w @ ''.md'')
                      @ concat (map (\<lambda>(i, c). str_int i @ ''. **'' @ author c @ ''**: ''
                                       @ comment_text c @ '' (Published at: '' @ published_at c
                                       @ '')'' @ [CHR 0x0A])
                                  (zip [1..137] (c1 @ c2)))
                \<and> file_content (csv_files w2) (''comments_'' @ vid @ ''_'' @ today w @ ''.csv'')
                    = file_content (csv_files w)
                        (''comments_'' @ vid @ ''_'' @ today w @ ''.csv'')
                      @ [StrCell ''Index'', StrCell ''Author'', StrCell ''Comment'',
                         StrCell ''Published At'']
                      # map (\<lambda>(i, c). [IntCell i, StrCell (author c), StrCell (comment_text c),
                                       StrCell (published_at c)])
                          (zip [1..137] (c1 @ c2)))"
    by simp
next
  show "str_int 1 = ''1''" and "str_int 100 = ''100''" and "str_int 137 = ''137''"
    by (simp_all add: str_int_def digit_char_def)
next
  let ?cs = "[\<lparr>author = ''ada'', comment_text = ''first'', published_at = ''2024''\<rparr>,
              \<lparr>author = ''bob'', comment_text = ''second'', published_at = ''2025''\<rparr>]"
  show "file_content
         (markdown_files (fst (save_comments example_world ?cs 0 ''dQw4w9WgXcQ'')))
         ''comments_dQw4w9WgXcQ_20240101.md''
       = ''1. **ada**: first (Published at: 2024)'' @ [CHR 0x0A]
         @ ''2. **bob**: second (Published at: 2025)'' @ [CHR 0x0A]"
    by (simp add: save_comments_def Let_def example_world_def no_fault_def write_markdown_def
        write_csv_def write_json_def markdown_file_name_def md_text_def md_line_def
        newline_def str_int_def digit_char_def file_content_def append_file_def)
  show "file_content
         (csv_files (fst (save_comments example_world ?cs 0 ''dQw4w9WgXcQ'')))
         ''comments_dQw4w9WgXcQ_20240101.csv''
       = [[StrCell ''Index'', StrCell ''Author'', StrCell ''Comment'', StrCell ''Published At''],
          [IntCell 1, StrCell ''ada'', StrCell ''first'', StrCell ''2024''],
          [IntCell 2, StrCell ''bob'', StrCell ''second'', StrCell ''2025'']]"
    by (simp add: save_comments_def Let_def example_world_def no_fault_def write_markdown_def
        write_csv_def write_json_def csv_file_name_def csv_rows_def csv_row_def csv_header_def
        file_content_def append_file_def)
qed

theorem save_comments_running_total_witness:
  "write_faults example_world (length (save_calls example_world)) = None
   \<and> write_faults example_world (Suc (length (save_calls example_world))) = None
   \<and> length (replicate 100 example_comment) = 100 \<and> length (replicate 37 example_comment) = 37
   \<and> snd (save_comments example_world [example_comment] 5 ''dQw4w9WgXcQ'') = 6
   \<and> file_content
         (markdown_files (fst (save_comments example_world [example_comment] 5 ''dQw4w9WgXcQ'')))
         ''comments_dQw4w9WgXcQ_20240101.md''
       = ''6. **ada**: first (Published at: 2024-01-01T00:00:00Z)'' @ [CHR 0x0A]
   \<and> file_content
         (csv_files (fst (save_comments example_world [example_comment] 5 ''dQw4w9WgXcQ'')))
         ''comments_dQw4w9WgXcQ_20240101.csv''
       = [[IntCell 6, StrCell ''ada'', StrCell ''first'', StrCell ''2024-01-01T00:00:00Z'']]
   \<and> snd (save_comments example_world (replicate 100 example_comment) 0 ''dQw4w9WgXcQ'') = 100
   \<and> snd (save_comments
             (fst (save_comments example_world (replicate 100 example_comment) 0 ''dQw4w9WgXcQ''))
             (replicate 37 example_comment)
             (snd (save_comments example_world (replicate 100 example_comment) 0 ''dQw4w9WgXcQ''))
             ''dQw4w9WgXcQ'') = 137
   \<and> file_content
         (markdown_files
            (fst (save_comments
               (fst (save_comments example_world (replicate 100 example_comment) 0 ''dQw4w9WgXcQ''))
               (replicate 37 example_comment)
               (snd (save_comments example_world (replicate 100 example_comment) 0 ''dQw4w9WgXcQ''))
               ''dQw4w9WgXcQ'')))
         (''comments_'' @ ''dQw4w9WgXcQ'' @ ''_'' @ ''20240101'' @ ''.md'')
       = concat (map (\<lambda>(i, c). str_int i @ ''. **'' @ author c @ ''**: ''
                        @ comment_text c @ '' (Published at: '' @ published_at c
                        @ '')'' @ [CHR 0x0A])
                   (zip [1..137] (replicate 100 example_comment @ replicate 37 example_comment)))
   \<and> file_content
         (csv_files
            (fst (save_comments
               (fst (save_comments example_world (replicate 100 example_comment) 0 ''dQw4w9WgXcQ''))
               (replicate 37 example_comment)
               (snd (save_comments example_world (replicate 100 example_comment) 0 ''dQw4w9WgXcQ''))
               ''dQw4w9WgXcQ'')))
         (''comments_'' @ ''dQw4w9WgXcQ'' @ ''_'' @ ''20240101'' @ ''.csv'')
       = [StrCell ''Index'', StrCell ''Author'', StrCell ''Comment'', StrCell ''Published At'']
         # map (\<lambda>(i, c). [IntCell i, StrCell (author c), StrCell (comment_text c),
                          StrCell (published_at c)])
             (zip [1..137] (replicate 100 example_comment @ replicate 37 example_comment))"
proof -
  have f1: "write_faults example_world (length (save_calls example_world)) = None"
    and f2: "write_faults example_world (Suc (length (save_calls example_world))) = None"
    by (simp_all add: example_world_def no_fault_def)
  have l1: "length (replicate 100 example_comment) = 100"
    and l2: "length (replicate 37 example_comment) = 37"
    by simp_all
  have td: "today example_world = ''20240101''"
    by (simp add: example_world_def)
  have md0: "file_content (markdown_files example_world) n = []"
    and csv0: "file_content (csv_files example_world) n = []" for n
    by (simp_all add: example_world_def file_content_def)
  note inst = save_comments_running_total
    [of example_world "[example_comment]" 5 "''dQw4w9WgXcQ''"
      "replicate 100 example_comment" "replicate 37 example_comment"]
  note one = inst [THEN conjunct1, rule_format, OF f1, unfolded td md0 csv0]
  from one have a: "snd (save_comments example_world [example_comment] 5 ''dQw4w9WgXcQ'') = 6"
    by simp
  from one have b: "file_content
         (markdown_files (fst (save_comments example_world [example_comment] 5 ''dQw4w9WgXcQ'')))
         ''comments_dQw4w9WgXcQ_20240101.md''
       = ''6. **ada**: first (Published at: 2024-01-01T00:00:00Z)'' @ [CHR 0x0A]"
    by (simp add: str_int_def digit_char_def example_comment_def)
  from one have c: "file_content
         (csv_files (fst (save_comments example_world [example_comment] 5 ''dQw4w9WgXcQ'')))
         ''comments_dQw4w9WgXcQ_20240101.csv''
       = [[IntCell 6, StrCell ''ada'', StrCell ''first'', StrCell ''2024-01-01T00:00:00Z'']]"
    by (simp add: example_comment_def)
  have two: "snd (save_comments example_world (replicate 100 example_comment) 0 ''dQw4w9WgXcQ'') = 100
   \<and> snd (save_comments
             (fst (save_comments example_world (replicate 100 example_comment) 0 ''dQw4w9WgXcQ''))
             (replicate 37 example_comment)
             (snd (save_comments example_world (replicate 100 example_comment) 0 ''dQw4w9WgXcQ''))
             ''dQw4w9WgXcQ'') = 137
   \<and> file_content
         (markdown_files
            (fst (save_comments
               (fst (save_comments example_world (replicate 100 example_comment) 0 ''dQw4w9WgXcQ''))
               (replicate 37 example_comment)
               (snd (save_comments example_world (replicate 100 example_comment) 0 ''dQw4w9WgXcQ''))
               ''dQw4w9WgXcQ'')))
         (''comments_'' @ ''dQw4w9WgXcQ'' @ ''_'' @ ''20240101'' @ ''.md'')
       = concat (map (\<lambda>(i, c). str_int i @ ''. **'' @ author c @ ''**: ''
                        @ comment_text c @ '' (Published at: '' @ published_at c
                        @ '')'' @ [CHR 0x0A])
                   (zip [1..137] (replicate 100 example_comment @ replicate 37 example_comment)))
   \<and> file_content
         (csv_files
            (fst (save_comments
               (fst (save_comments example_world (replicate 100 example_comment) 0 ''dQw4w9WgXcQ''))
               (replicate 37 example_comment)
               (snd (save_comments example_world (replicate 100 example_comment) 0 ''dQw4w9WgXcQ''))
               ''dQw4w9WgXcQ'')))
         (''comments_'' @ ''dQw4w9WgXcQ'' @ ''_'' @ ''20240101'' @ ''.csv'')
       = [StrCell ''Index'', StrCell ''Author'', StrCell ''Comment'', StrCell ''Published At'']
         # map (\<lambda>(i, c). [IntCell i, StrCell (author c), StrCell (comment_text c),
                          StrCell (published_at c)])
             (zip [1..137] (replicate 100 example_comment @ replicate 37 example_comment))"
    using inst [THEN conjunct2, THEN conjunct1, rule_format, OF l1 l2 f1 f2]
    unfolding case_prod_beta td md0 csv0 append_Nil .
  note t1 = two [THEN conjunct1] and t2 = two [THEN conjunct2, THEN conjunct1]
    and t3 = two [THEN conjunct2, THEN conjunct2, THEN conjunct1]
    and t4 = two [THEN conjunct2, THEN conjunct2, THEN conjunct2]
  from f1 f2 l1 l2 a b c t1 t2 t3 t4 show ?thesis by (intro conjI)
qed

section \<open>Failing writes, the missing API key and the resume offset\<close>

lemma save_comments_fault:
  assumes "write_faults w (length (save_calls w)) = Some f"
  shows "snd (save_comments w cs s vid) = s"
    and "logged (fst (save_comments w cs s vid))
           = logged w @ [(ERROR, ''Comments could not be saved: '' @ fault_message f)]"
  using assms
  by (cases f; simp add: save_comments_def Let_def write_markdown_def write_csv_def
      write_markdown_part_def write_csv_part_def split: progress.splits)+

text \<open>
  Claim C9. When a write fails during a flush, \<open>save_comments\<close> returns the start index
  unchanged and appends one error record to the log. The run goes on whatever writes
  fail: with the API key set and a sequence of pages whose last one carries no
  continuation token, \<open>_run\<close> requests every page, passes every batch to \<open>save_comments\<close>
  and returns the pending batch.
\<close>

theorem save_comments_write_failure:
  "(write_faults w (length (save_calls w)) = Some f \<longrightarrow>
      snd (save_comments w cs s vid) = s
      \<and> logged (fst (save_comments w cs s vid))
          = logged w @ [(ERROR, ''Comments could not be saved: '' @ fault_message f)])
   \<and> (api_key_env w = Some k \<longrightarrow> k \<noteq> [] \<longrightarrow> serves (responses w) (length (requests w)) ps \<longrightarrow>
      paged ps \<longrightarrow>
      (\<exists>w'. YouTubeCommentsTool_run w vid = Some (w', unflushed [] (map fst ps))
         \<and> length (requests w') = length (requests w) + length ps
         \<and> map fst (save_calls w')
             = map fst (save_calls w) @ flushed [] (map fst ps) @ [unflushed [] (map fst ps)]))"
proof (intro conjI impI)
  assume f: "write_faults w (length (save_calls w)) = Some f"
  from save_comments_fault [OF f]
  show "snd (save_comments w cs s vid) = s"
    and "logged (fst (save_comments w cs s vid))
          = logged w @ [(ERROR, ''Comments could not be saved: '' @ fault_message f)]"
    by simp_all
next
  assume "api_key_env w = Some k" and "k \<noteq> []"
    and "serves (responses w) (length (requests w)) ps" and "paged ps"
  from run_paged_facts [OF this, of vid]
  show "\<exists>w'. YouTubeCommentsTool_run w vid = Some (w', unflushed [] (map fst ps))
         \<and> length (requests w') = length (requests w) + length ps
         \<and> map fst (save_calls w')
             = map fst (save_calls w) @ flushed [] (map fst ps) @ [unflushed [] (map fst ps)]"
    by blast
qed

theorem save_comments_write_failure_witness:
  "write_faults (example_world\<lparr>responses := script full_then_last, write_faults := json_fault\<rparr>)
      (length (save_calls
         (example_world\<lparr>responses := script full_then_last, write_faults := json_fault\<rparr>)))
     = Some (JsonFails ''disk full'')
   \<and> snd (save_comments
            (example_world\<lparr>responses := script full_then_last, write_faults := json_fault\<rparr>)
            [example_comment] 7 ''dQw4w9WgXcQ'') = 7
   \<and> logged (fst (save_comments
            (example_world\<lparr>responses := script full_then_last, write_faults := json_fault\<rparr>)
            [example_comment] 7 ''dQw4w9WgXcQ''))
       = [(ERROR, ''Comments could not be saved: disk full'')]
   \<and> api_key_env (example_world\<lparr>responses := script full_then_last, write_faults := json_fault\<rparr>)
       = Some ''KEY''
   \<and> ''KEY'' \<noteq> []
   \<and> serves
        (responses (example_world\<lparr>responses := script full_then_last, write_faults := json_fault\<rparr>))
        (length (requests
           (example_world\<lparr>responses := script full_then_last, write_faults := json_fault\<rparr>)))
        full_then_last
   \<and> paged full_then_last
   \<and> (\<exists>w'. YouTubeCommentsTool_run
               (example_world\<lparr>responses := script full_then_last, write_faults := json_fault\<rparr>)
               ''dQw4w9WgXcQ'' = Some (w', [example_comment])
         \<and> length (requests w') = 2
         \<and> map fst (save_calls w') = [replicate 100 example_comment, [example_comment]])"
proof -
  let ?w = "example_world\<lparr>responses := script full_then_last, write_faults := json_fault\<rparr>"
  have h1: "write_faults ?w (length (save_calls ?w)) = Some (JsonFails ''disk full'')"
    by (simp add: example_world_def json_fault_def)
  have key: "api_key_env ?w = Some ''KEY''"
    by (simp add: example_world_def)
  have k: "''KEY'' \<noteq> []" by simp
  have srv: "serves (responses ?w) (length (requests ?w)) full_then_last"
    by (simp add: example_world_def full_then_last_def script_def)
  have pg: "paged full_then_last"
    by (simp add: paged_def continuing_def falsy_def full_then_last_def)
  have lg: "logged ?w = []" and rq: "length (requests ?w) = 0" and sc: "save_calls ?w = []"
    by (simp_all add: example_world_def)
  have fl: "flushed [] (map fst full_then_last) = [replicate 100 example_comment]"
    and un: "unflushed [] (map fst full_then_last) = [example_comment]"
    by (simp_all add: full_then_last_def)
  have ln: "length full_then_last = 2"
    by (simp add: full_then_last_def)
  note inst = save_comments_write_failure
    [of ?w "JsonFails ''disk full''" "[example_comment]" 7 "''dQw4w9WgXcQ''" "''KEY''"
      full_then_last]
  from inst h1 have a: "snd (save_comments ?w [example_comment] 7 ''dQw4w9WgXcQ'') = 7"
    by blast
  from inst h1 have "logged (fst (save_comments ?w [example_comment] 7 ''dQw4w9WgXcQ''))
       = logged ?w @ [(ERROR, ''Comments could not be saved: '' @ fault_message (JsonFails ''disk full''))]"
    by blast
  then have b: "logged (fst (save_comments ?w [example_comment] 7 ''dQw4w9WgXcQ''))
       = [(ERROR, ''Comments could not be saved: disk full'')]"
    unfolding lg by simp
  from inst key k srv pg
  have "\<exists>w'. YouTubeCommentsTool_run ?w ''dQw4w9WgXcQ''
               = Some (w', unflushed [] (map fst full_then_last))
         \<and> length (requests w') = length (requests ?w) + length full_then_last
         \<and> map fst (save_calls w')
             = map fst (save_calls ?w) @ flushed [] (map fst full_then_last)
               @ [unflushed [] (map fst full_then_last)]"
    by blast
  then have c: "\<exists>w'. YouTubeCommentsTool_run ?w ''dQw4w9WgXcQ'' = Some (w', [example_comment])
         \<and> length (requests w') = 2
         \<and> map fst (save_calls w') = [replicate 100 example_comment, [example_comment]]"
    unfolding fl un rq sc ln by (simp add: numeral_2_eq_2)
  from h1 a b key k srv pg c show ?thesis by (intro conjI)
qed

text \<open>
  Claim C4. When the environment variable of the API key is unset, \<open>_run\<close> returns the
  empty list, and the only thing it does is to append the error record
  \<open>YOUTUBE_API_KEY environment variable not set.\<close> to the log: no request is sent,
  \<open>save_comments\<close> is not called, and no file changes.
\<close>

theorem run_without_api_key:
  assumes "api_key_env w = None"
  shows "\<exists>w'. YouTubeCommentsTool_run w vid = Some (w', [])
    \<and> w' = w\<lparr>logged := logged w @ [(ERROR, ''YOUTUBE_API_KEY environment variable not set.'')]\<rparr>
    \<and> requests w' = requests w \<and> save_calls w' = save_calls w
    \<and> markdown_files w' = markdown_files w \<and> csv_files w' = csv_files w
    \<and> json_files w' = json_files w"
  using assms by (simp add: YouTubeCommentsTool_run_def log_error_def)

theorem run_without_api_key_witness:
  "api_key_env (example_world\<lparr>api_key_env := None\<rparr>) = None
   \<and> (\<exists>w'. YouTubeCommentsTool_run (example_world\<lparr>api_key_env := None\<rparr>) ''dQw4w9WgXcQ''
               = Some (w', [])
         \<and> w' = example_world\<lparr>api_key_env := None,
                   logged := logged (example_world\<lparr>api_key_env := None\<rparr>)
                     @ [(ERROR, ''YOUTUBE_API_KEY environment variable not set.'')]\<rparr>
         \<and> requests w' = requests (example_world\<lparr>api_key_env := None\<rparr>)
         \<and> save_calls w' = save_calls (example_world\<lparr>api_key_env := None\<rparr>)
         \<and> markdown_files w' = markdown_files (example_world\<lparr>api_key_env := None\<rparr>)
         \<and> csv_files w' = csv_files (example_world\<lparr>api_key_env := None\<rparr>)
         \<and> json_files w' = json_files (example_world\<lparr>api_key_env := None\<rparr>))"
proof -
  have h: "api_key_env (example_world\<lparr>api_key_env := None\<rparr>) = None" by simp
  from run_without_api_key [OF h, of "''dQw4w9WgXcQ''"] h show ?thesis by (intro conjI)
qed

text \<open>
  Claim C2 does not hold of the code. \<open>get_current_comment_count\<close> reads the names
  \<open>video_id\<close> and \<open>date_str\<close>, which are bound neither in the method nor at module
  level, so the lookup of \<open>video_id\<close> raises, the method's own handler logs the error,
  and the result is 0 for every state of the directory. In \<open>resumed_world\<close> the Markdown
  file of the video and the day exists and has three lines, and the resume offset is 0.
\<close>

theorem get_current_comment_count_ignores_file:
  "snd (get_current_comment_count w) = 0
   \<and> logged (fst (get_current_comment_count w))
       = logged w @ [(ERROR, ''Current comment count could not be retrieved: name ''
                        @ [CHR 0x27] @ ''video_id'' @ [CHR 0x27] @ '' is not defined'')]
   \<and> markdown_files resumed_world (markdown_file_name ''dQw4w9WgXcQ'' (today resumed_world))
       = Some (md_text 1 [example_comment, example_comment, example_comment])
   \<and> py_lines (md_text 1 [example_comment, example_comment, example_comment]) = 3
   \<and> snd (get_current_comment_count resumed_world) = 0"
proof -
  have a: "markdown_files resumed_world (markdown_file_name ''dQw4w9WgXcQ'' (today resumed_world))
       = Some (md_text 1 [example_comment, example_comment, example_comment])"
    by (simp add: resumed_world_def example_world_def)
  have b: "py_lines (md_text 1 [example_comment, example_comment, example_comment]) = 3"
    by (simp add: md_text_def md_line_def str_int_def digit_char_def example_comment_def
        newline_def)
  from a b show ?thesis
    by (simp add: get_current_comment_count_eq)
qed

end
